theory Spec2Isabelle
  imports Complex_Main
begin

section \<open>Kernel-variant selection models (src/lib/model/model.cpp)\<close>

text \<open>
  A shallow embedding of \<^verbatim>\<open>atidlas::model\<close> and of the description importer.
  Every throw, failed assertion and out-of-range access of the C++ is a value of
  \<open>error\<close>; the member functions take the model and return the updated model.

  The kernel templates, the expression traversal, the random forest, the timer and the
  OpenCL queue are collaborators declared in headers outside this file. What they
  compute is a parameter of the embedding (the record \<open>backend\<close>, the predictor stored
  in the model, the timer readings given to \<open>tune\<close>); what the queue receives is
  recorded as a list of events.
\<close>

subsection \<open>Errors\<close>

datatype error =
    invalid_argument string   \<comment> \<open>\<^verbatim>\<open>throw std::invalid_argument(msg)\<close>\<close>
  | assertion_failed          \<comment> \<open>a failed \<^verbatim>\<open>assert\<close> or \<^verbatim>\<open>RAPIDJSON_ASSERT\<close>\<close>
  | out_of_bounds             \<comment> \<open>undefined: an unchecked index outside a vector or array\<close>
  | buffer_overrun            \<comment> \<open>undefined: a store past the end of \<^verbatim>\<open>program_name[256]\<close>\<close>
  | null_pointer              \<comment> \<open>undefined: a call through a null \<^verbatim>\<open>predictor_\<close>\<close>

subsection \<open>Enumerations and kernel templates\<close>

datatype fetching_policy_type =
  FETCH_FROM_LOCAL | FETCH_FROM_GLOBAL_STRIDED | FETCH_FROM_GLOBAL_CONTIGUOUS

datatype expression_type =
    SCALAR_AXPY_TYPE | VECTOR_AXPY_TYPE | REDUCTION_TYPE | MATRIX_AXPY_TYPE
  | ROW_WISE_REDUCTION_TYPE | COL_WISE_REDUCTION_TYPE
  | MATRIX_PRODUCT_NN_TYPE | MATRIX_PRODUCT_TN_TYPE
  | MATRIX_PRODUCT_NT_TYPE | MATRIX_PRODUCT_TT_TYPE

datatype numeric_type =
    CHAR_TYPE | UCHAR_TYPE | SHORT_TYPE | USHORT_TYPE | INT_TYPE | UINT_TYPE
  | LONG_TYPE | ULONG_TYPE | FLOAT_TYPE | DOUBLE_TYPE

text \<open>The subclasses of \<^verbatim>\<open>base\<close>, each with the arguments of its constructor.\<close>

datatype base =
    vaxpy int int int fetching_policy_type
  | reduction int int int fetching_policy_type
  | maxpy int int int int int fetching_policy_type
  | mreduction_rows int int int int fetching_policy_type
  | mreduction_cols int int int int fetching_policy_type
  | mproduct_nn int int int int int int int fetching_policy_type fetching_policy_type int int
  | mproduct_tn int int int int int int int fetching_policy_type fetching_policy_type int int
  | mproduct_nt int int int int int int int fetching_policy_type fetching_policy_type int int
  | mproduct_tt int int int int int int int fetching_policy_type fetching_policy_type int int

subsection \<open>Expression batches, devices, queues, lazily compiled programs\<close>

datatype order_t = SEQUENTIAL | INDEPENDENT

datatype binding_policy_t = BIND_ALL_UNIQUE | BIND_TO_HANDLE

text \<open>
  \<^verbatim>\<open>symbolic_expressions_container\<close>: its order, its expressions and the handle of
  its OpenCL context. The expressions themselves are of an arbitrary type \<open>'e\<close>.
\<close>

record 'e symbolic_expressions_container =
  se_order :: order_t
  se_data :: "'e list"
  se_context :: nat

record device =
  CL_DEVICE_EXTENSIONS :: string

datatype event = Enqueue nat | Finish

text \<open>
  The command queue: its context handle, its device, and the submissions it has
  received (\<open>Enqueue label\<close> for \<^verbatim>\<open>templates_[label]->enqueue(queue_, compilers, label, ...)\<close>,
  \<open>Finish\<close> for \<^verbatim>\<open>queue_.finish()\<close>).
\<close>

record command_queue =
  CL_QUEUE_CONTEXT :: nat
  CL_QUEUE_DEVICE :: device
  submitted :: "event list"

text \<open>
  \<^verbatim>\<open>cl_ext::lazy_compiler\<close>: built from a context, a program name and the
  recompilation flag; \<^verbatim>\<open>add\<close> appends one source.
\<close>

record lazy_compiler =
  lc_context :: nat
  lc_name :: string
  lc_force_recompilation :: bool
  lc_sources :: "string list"

definition add :: "lazy_compiler \<Rightarrow> string \<Rightarrow> lazy_compiler" where
  "add lc src = lc\<lparr>lc_sources := lc_sources lc @ [src]\<rparr>"

text \<open>
  The collaborators. \<open>new_binder\<close> and \<open>traverse\<close> stand for the symbolic binder and for
  \<^verbatim>\<open>traverse(expr, root, symbolic_expression_representation_functor(binder, program_name), true)\<close>:
  the traversal of one expression returns the characters it writes through the
  pointer \<^verbatim>\<open>program_name\<close> (which it advances) and the binder afterwards.
  \<open>input_sizes\<close> and \<open>generate\<close> are the virtual member functions of \<^verbatim>\<open>base\<close>.
\<close>

record ('e, 'b) backend =
  new_binder :: "binding_policy_t \<Rightarrow> 'b"
  traverse :: "'b \<Rightarrow> 'e \<Rightarrow> string \<times> 'b"
  input_sizes :: "base \<Rightarrow> 'e symbolic_expressions_container \<Rightarrow> int list"
  generate :: "base \<Rightarrow> nat \<Rightarrow> 'e symbolic_expressions_container \<Rightarrow> device \<Rightarrow> string list"

subsection \<open>\<^verbatim>\<open>float\<close>, \<^verbatim>\<open>std::min_element\<close> and \<^verbatim>\<open>std::string::find\<close>\<close>

text \<open>
  The values of a \<^verbatim>\<open>float\<close>, as far as \<^verbatim>\<open>operator<\<close> tells them apart: the two
  infinities, the finite numbers (both zeros are the number 0), and NaN. A comparison
  with NaN on either side is false.
\<close>

datatype float = NaN | MinusInfinity | Finite real | PlusInfinity

fun float_less :: "float \<Rightarrow> float \<Rightarrow> bool" where
  "float_less NaN y = False"
| "float_less x NaN = False"
| "float_less MinusInfinity y = (y \<noteq> MinusInfinity)"
| "float_less x MinusInfinity = False"
| "float_less PlusInfinity y = False"
| "float_less x PlusInfinity = True"
| "float_less (Finite a) (Finite b) = (a < b)"

text \<open>
  \<^verbatim>\<open>std::distance(v.begin(), std::min_element(v.begin(), v.end()))\<close>: the loop of the
  standard algorithm, which keeps the position \<open>smallest\<close> and moves it only when
  \<^verbatim>\<open>*first < *smallest\<close> holds; on an empty range it returns \<^verbatim>\<open>last\<close>, at distance 0.
  The comparison \<open>cmp\<close> is \<^verbatim>\<open>operator<\<close> of the element type.
\<close>

function min_element_loop :: "('a \<Rightarrow> 'a \<Rightarrow> bool) \<Rightarrow> 'a list \<Rightarrow> nat \<Rightarrow> nat \<Rightarrow> nat" where
  "min_element_loop cmp v smallest first =
     (if first < length v
      then min_element_loop cmp v
             (if cmp (v ! first) (v ! smallest) then first else smallest) (Suc first)
      else smallest)"
  by pat_completeness auto
termination
  by (relation "measure (\<lambda>(cmp, v, smallest, first). length v - first)") auto

declare min_element_loop.simps [simp del]

definition min_element :: "('a \<Rightarrow> 'a \<Rightarrow> bool) \<Rightarrow> 'a list \<Rightarrow> nat" where
  "min_element cmp v = (if v = [] then 0 else min_element_loop cmp v 0 1)"

text \<open>\<^verbatim>\<open>s.find(t) != std::string::npos\<close>: \<open>t\<close> occurs in \<open>s\<close>.\<close>

fun str_contains :: "string \<Rightarrow> string \<Rightarrow> bool" where
  "str_contains [] t = (t = [])"
| "str_contains (c # s) t = (take (length t) (c # s) = t \<or> str_contains s t)"

subsection \<open>The model\<close>

text \<open>
  \<^verbatim>\<open>lazy_programs_[context()][pname]\<close>: a map of maps to vectors of lazy compilers.
  \<^verbatim>\<open>operator[]\<close> inserts an empty vector under a key that is absent.
\<close>

type_synonym lazy_programs = "nat \<rightharpoonup> (string \<rightharpoonup> lazy_compiler list)"

definition lazy_programs_at :: "lazy_programs \<Rightarrow> nat \<Rightarrow> string \<Rightarrow> lazy_compiler list" where
  "lazy_programs_at lp c n =
     (case lp c of None \<Rightarrow> []
      | Some inner \<Rightarrow> (case inner n of None \<Rightarrow> [] | Some v \<Rightarrow> v))"

definition lazy_programs_set ::
  "lazy_programs \<Rightarrow> nat \<Rightarrow> string \<Rightarrow> lazy_compiler list \<Rightarrow> lazy_programs" where
  "lazy_programs_set lp c n v =
     lp(c \<mapsto> (case lp c of None \<Rightarrow> Map.empty | Some inner \<Rightarrow> inner)(n \<mapsto> v))"

text \<open>
  The fields of \<^verbatim>\<open>model\<close>: the members \<^verbatim>\<open>templates_\<close>, \<^verbatim>\<open>predictor_\<close>,
  \<^verbatim>\<open>hardcoded_\<close>, \<^verbatim>\<open>lazy_programs_\<close> and \<^verbatim>\<open>queue_\<close>, written without the trailing
  underscore, which a record field cannot have. The predictor is the function \<^verbatim>\<open>predict\<close> of the random
  forest, or \<open>None\<close> for the null pointer; it returns a vector of \<^verbatim>\<open>float\<close>.
  The labels kept in \<^verbatim>\<open>hardcoded_\<close> are only ever results of \<^verbatim>\<open>std::distance\<close>
  from the start of a vector, so they are naturals.
\<close>

record model =
  templates :: "base list"
  predictor :: "(int list \<Rightarrow> float list) option"
  hardcoded :: "int list \<rightharpoonup> nat"
  lazy_programs :: lazy_programs
  queue :: command_queue

subsection \<open>\<^verbatim>\<open>model::define_extension\<close>, \<^verbatim>\<open>model::fill_program_name\<close>, \<^verbatim>\<open>model::init\<close>\<close>

definition define_extension :: "string \<Rightarrow> string \<Rightarrow> string" where
  "define_extension extensions ext =
     (if str_contains extensions ext
      then ''#pragma OPENCL EXTENSION '' @ ext @ '' : enable'' @ [CHR 0x0A]
      else '''')"

text \<open>The traversals of the expressions of a batch, in order, with one binder.\<close>

fun traverse_all :: "('e, 'b) backend \<Rightarrow> 'b \<Rightarrow> 'e list \<Rightarrow> string" where
  "traverse_all B binder [] = ''''"
| "traverse_all B binder (e # es) =
     (case traverse B binder e of (written, binder') \<Rightarrow> written @ traverse_all B binder' es)"

text \<open>
  \<open>fill_program_name\<close> returns the characters it stores through \<^verbatim>\<open>program_name\<close>, in
  order, from the start of the buffer: the prefix, what the traversals write, and the
  terminating zero. The function is given a pointer only and compares it with nothing.
\<close>

definition fill_program_name ::
  "('e, 'b) backend \<Rightarrow> 'e symbolic_expressions_container \<Rightarrow> binding_policy_t \<Rightarrow> string" where
  "fill_program_name B symbolic_expressions binding_policy =
     (if se_order symbolic_expressions = INDEPENDENT then CHR ''i'' else CHR ''s'')
     # traverse_all B (new_binder B binding_policy) (se_data symbolic_expressions)
     @ [CHR 0x00]"

text \<open>\<^verbatim>\<open>char program_name[256]\<close>\<close>

definition program_name_size :: nat where
  "program_name_size = 256"

text \<open>\<^verbatim>\<open>std::string pname(program_name)\<close>: the characters before the first zero.\<close>

definition c_str_to_string :: "string \<Rightarrow> string" where
  "c_str_to_string buf = takeWhile (\<lambda>c. c \<noteq> CHR 0x00) buf"

text \<open>The inner loop \<^verbatim>\<open>for j < cur.size(): to_init[j].add(cur[j])\<close>, from index \<open>j\<close>.\<close>

fun add_sources :: "lazy_compiler list \<Rightarrow> nat \<Rightarrow> string list \<Rightarrow> error + lazy_compiler list" where
  "add_sources to_init j [] = Inr to_init"
| "add_sources to_init j (src # cur) =
     (if j < length to_init
      then add_sources (to_init[j := add (to_init ! j) src]) (Suc j) cur
      else Inl out_of_bounds)"

text \<open>The outer loop over \<^verbatim>\<open>templates_\<close>, from index \<open>i\<close>.\<close>

fun generate_all ::
  "('e, 'b) backend \<Rightarrow> 'e symbolic_expressions_container \<Rightarrow> device \<Rightarrow>
   nat \<Rightarrow> base list \<Rightarrow> lazy_compiler list \<Rightarrow> error + lazy_compiler list" where
  "generate_all B symbolic_expressions dev i [] to_init = Inr to_init"
| "generate_all B symbolic_expressions dev i (t # ts) to_init =
     (case add_sources to_init 0 (generate B t i symbolic_expressions dev) of
        Inl e \<Rightarrow> Inl e
      | Inr to_init' \<Rightarrow> generate_all B symbolic_expressions dev (Suc i) ts to_init')"

text \<open>
  \<open>init\<close> returns the model with its program cache updated, and the vector
  \<^verbatim>\<open>to_init\<close> it returns a reference to. The source writes the name into a buffer of
  256 characters without a check; a longer name runs over the buffer.
\<close>

definition init ::
  "('e, 'b) backend \<Rightarrow> model \<Rightarrow> 'e symbolic_expressions_container \<Rightarrow> nat \<Rightarrow> device \<Rightarrow> bool \<Rightarrow>
   error + (model \<times> lazy_compiler list)" where
  "init B m symbolic_expressions ctx dev force_recompilation =
     (let program_name = fill_program_name B symbolic_expressions BIND_TO_HANDLE in
      if program_name_size < length program_name then Inl buffer_overrun
      else
        let pname = c_str_to_string program_name;
            to_init = lazy_programs_at (lazy_programs m) ctx pname
        in if to_init = []
           then
             let extensions = CL_DEVICE_EXTENSIONS dev;
                 shell = \<lparr>lc_context = ctx, lc_name = pname,
                          lc_force_recompilation = force_recompilation, lc_sources = []\<rparr>;
                 shell_fb = \<lparr>lc_context = ctx, lc_name = pname @ ''_fb'',
                             lc_force_recompilation = force_recompilation, lc_sources = []\<rparr>;
                 two = [add shell (define_extension extensions ''cl_khr_fp64''),
                        add shell_fb (define_extension extensions ''cl_khr_fp64'')]
             in (case generate_all B symbolic_expressions dev 0 (templates m) two of
                   Inl e \<Rightarrow> Inl e
                 | Inr filled \<Rightarrow>
                     Inr (m\<lparr>lazy_programs :=
                              lazy_programs_set (lazy_programs m) ctx pname filled\<rparr>,
                          filled))
           else Inr (m, to_init))"

subsection \<open>\<^verbatim>\<open>model::execute\<close> and \<^verbatim>\<open>model::tune\<close>\<close>

definition enqueue :: "command_queue \<Rightarrow> nat \<Rightarrow> command_queue" where
  "enqueue q label = q\<lparr>submitted := submitted q @ [Enqueue label]\<rparr>"

definition finish :: "command_queue \<Rightarrow> command_queue" where
  "finish q = q\<lparr>submitted := submitted q @ [Finish]\<rparr>"

text \<open>
  \<open>execute\<close>: the assertion on the context, \<open>init\<close>, the input sizes of
  \<^verbatim>\<open>templates_[0]\<close>, the choice of \<open>label\<close>, and the submission of
  \<^verbatim>\<open>templates_[label]\<close>. The assertion is taken as compiled in. Indexing
  \<^verbatim>\<open>templates_\<close> outside its size and calling through a null predictor are undefined
  in the source.
\<close>

definition execute ::
  "('e, 'b) backend \<Rightarrow> model \<Rightarrow> 'e symbolic_expressions_container \<Rightarrow> bool \<Rightarrow> bool \<Rightarrow>
   error + model" where
  "execute B m symbolic_expressions bypass_predictor force_recompilation =
     (let bypass = (bypass_predictor \<or> predictor m = None);
          ctx = se_context symbolic_expressions
      in if ctx \<noteq> CL_QUEUE_CONTEXT (queue m) then Inl assertion_failed
         else
           let dev = CL_QUEUE_DEVICE (queue m)
           in (case init B m symbolic_expressions ctx dev force_recompilation of
                 Inl e \<Rightarrow> Inl e
               | Inr (m1, compilers) \<Rightarrow>
                   (case templates m1 of
                      [] \<Rightarrow> Inl out_of_bounds
                    | t0 # _ \<Rightarrow>
                        let x = input_sizes B t0 symbolic_expressions;
                            label =
                              (case hardcoded m1 x of
                                 Some l \<Rightarrow> Inr l
                               | None \<Rightarrow>
                                   if bypass then Inr 0
                                   else (case predictor m1 of
                                           None \<Rightarrow> Inl null_pointer
                                         | Some predict \<Rightarrow> Inr (min_element float_less (predict x))))
                        in (case label of
                              Inl e \<Rightarrow> Inl e
                            | Inr l \<Rightarrow>
                                if l < length (templates m1)
                                then Inr (m1\<lparr>queue := enqueue (queue m1) l\<rparr>)
                                else Inl out_of_bounds))))"



subsection \<open>The description document\<close>

text \<open>
  The parsed description, as the importer reads it through rapidjson: \<open>HasMember\<close>
  and \<open>member\<close> (\<^verbatim>\<open>operator[]\<close> with a name) find the first member of that name and
  assert that the value is an object; \<open>Size\<close> asserts that it is an array. A member
  that is read but absent also ends in a failed assertion.
\<close>

datatype json =
    JNull | JBool bool | JInt int | JString string
  | JArray "json list" | JObject "(string \<times> json) list"

fun HasMember :: "json \<Rightarrow> string \<Rightarrow> error + bool" where
  "HasMember (JObject members) name = Inr (map_of members name \<noteq> None)"
| "HasMember _ name = Inl assertion_failed"

fun member :: "json \<Rightarrow> string \<Rightarrow> error + json" where
  "member (JObject members) name =
     (case map_of members name of None \<Rightarrow> Inl assertion_failed | Some v \<Rightarrow> Inr v)"
| "member _ name = Inl assertion_failed"

fun elements :: "json \<Rightarrow> error + json list" where
  "elements (JArray vs) = Inr vs"
| "elements _ = Inl assertion_failed"

fun GetInt :: "json \<Rightarrow> error + int" where
  "GetInt (JInt i) = Inr i"
| "GetInt _ = Inl assertion_failed"

fun GetInt_all :: "json list \<Rightarrow> error + int list" where
  "GetInt_all [] = Inr []"
| "GetInt_all (v # vs) =
     (case GetInt v of
        Inl e \<Rightarrow> Inl e
      | Inr i \<Rightarrow> (case GetInt_all vs of Inl e \<Rightarrow> Inl e | Inr is \<Rightarrow> Inr (i # is)))"

text \<open>\<^verbatim>\<open>tools::to_int_array<int>\<close>: the integers of a JSON array.\<close>

definition to_int_array :: "json \<Rightarrow> error + int list" where
  "to_int_array a = (case elements a of Inl e \<Rightarrow> Inl e | Inr vs \<Rightarrow> GetInt_all vs)"

subsection \<open>\<^verbatim>\<open>detail::get_expression_type\<close>, \<^verbatim>\<open>detail::get_dtype\<close>, \<^verbatim>\<open>detail::create\<close>\<close>

definition get_expression_type :: "string \<Rightarrow> error + expression_type" where
  "get_expression_type name =
     (if name = ''vaxpy'' then Inr VECTOR_AXPY_TYPE
      else if name = ''dot'' then Inr REDUCTION_TYPE
      else if name = ''maxpy'' then Inr MATRIX_AXPY_TYPE
      else if name = ''gemvN'' then Inr ROW_WISE_REDUCTION_TYPE
      else if name = ''gemvT'' then Inr COL_WISE_REDUCTION_TYPE
      else if name = ''gemmNN'' then Inr MATRIX_PRODUCT_NN_TYPE
      else if name = ''gemmNT'' then Inr MATRIX_PRODUCT_NT_TYPE
      else if name = ''gemmTN'' then Inr MATRIX_PRODUCT_TN_TYPE
      else if name = ''gemmTT'' then Inr MATRIX_PRODUCT_TT_TYPE
      else Inl (invalid_argument (''Invalid expression: '' @ name)))"

definition get_dtype :: "string \<Rightarrow> error + numeric_type" where
  "get_dtype name =
     (if name = ''float32'' then Inr FLOAT_TYPE
      else if name = ''float64'' then Inr DOUBLE_TYPE
      else Inl (invalid_argument (''Invalid datatype: '' @ name)))"

text \<open>
  \<^verbatim>\<open>fetch[k]\<close> for the local array
  \<^verbatim>\<open>{FETCH_FROM_LOCAL, FETCH_FROM_GLOBAL_STRIDED, FETCH_FROM_GLOBAL_CONTIGUOUS}\<close>.
\<close>

definition fetch :: "int \<Rightarrow> error + fetching_policy_type" where
  "fetch k =
     (if k = 0 then Inr FETCH_FROM_LOCAL
      else if k = 1 then Inr FETCH_FROM_GLOBAL_STRIDED
      else if k = 2 then Inr FETCH_FROM_GLOBAL_CONTIGUOUS
      else Inl out_of_bounds)"

text \<open>
  The constructor calls of \<open>create\<close>, by arity. The vector \<open>a\<close> is indexed without a
  check: a longer profile is accepted and its tail ignored, a shorter one is read
  out of bounds.
\<close>

definition create4 ::
  "(int \<Rightarrow> int \<Rightarrow> int \<Rightarrow> fetching_policy_type \<Rightarrow> base) \<Rightarrow> int list \<Rightarrow> error + base" where
  "create4 new a =
     (if length a < 4 then Inl out_of_bounds
      else (case fetch (a ! 3) of
              Inl e \<Rightarrow> Inl e
            | Inr f3 \<Rightarrow> Inr (new (a ! 0) (a ! 1) (a ! 2) f3)))"

definition create5 ::
  "(int \<Rightarrow> int \<Rightarrow> int \<Rightarrow> int \<Rightarrow> fetching_policy_type \<Rightarrow> base) \<Rightarrow> int list \<Rightarrow> error + base" where
  "create5 new a =
     (if length a < 5 then Inl out_of_bounds
      else (case fetch (a ! 4) of
              Inl e \<Rightarrow> Inl e
            | Inr f4 \<Rightarrow> Inr (new (a ! 0) (a ! 1) (a ! 2) (a ! 3) f4)))"

definition create6 ::
  "(int \<Rightarrow> int \<Rightarrow> int \<Rightarrow> int \<Rightarrow> int \<Rightarrow> fetching_policy_type \<Rightarrow> base) \<Rightarrow> int list \<Rightarrow> error + base" where
  "create6 new a =
     (if length a < 6 then Inl out_of_bounds
      else (case fetch (a ! 5) of
              Inl e \<Rightarrow> Inl e
            | Inr f5 \<Rightarrow> Inr (new (a ! 0) (a ! 1) (a ! 2) (a ! 3) (a ! 4) f5)))"

definition create11 ::
  "(int \<Rightarrow> int \<Rightarrow> int \<Rightarrow> int \<Rightarrow> int \<Rightarrow> int \<Rightarrow> int \<Rightarrow>
    fetching_policy_type \<Rightarrow> fetching_policy_type \<Rightarrow> int \<Rightarrow> int \<Rightarrow> base) \<Rightarrow>
   int list \<Rightarrow> error + base" where
  "create11 new a =
     (if length a < 11 then Inl out_of_bounds
      else (case fetch (a ! 7) of
              Inl e \<Rightarrow> Inl e
            | Inr f7 \<Rightarrow>
                (case fetch (a ! 8) of
                   Inl e \<Rightarrow> Inl e
                 | Inr f8 \<Rightarrow>
                     Inr (new (a ! 0) (a ! 1) (a ! 2) (a ! 3) (a ! 4) (a ! 5) (a ! 6)
                            f7 f8 (a ! 9) (a ! 10)))))"

definition create :: "string \<Rightarrow> int list \<Rightarrow> error + base" where
  "create template_name a =
     (if template_name = ''vaxpy'' then create4 vaxpy a
      else if template_name = ''dot'' then create4 reduction a
      else if template_name = ''maxpy'' then create6 maxpy a
      else if str_contains template_name ''gemvN'' then create5 mreduction_rows a
      else if str_contains template_name ''gemvT'' then create5 mreduction_cols a
      else if str_contains template_name ''gemmNN'' then create11 mproduct_nn a
      else if str_contains template_name ''gemmTN'' then create11 mproduct_tn a
      else if str_contains template_name ''gemmNT'' then create11 mproduct_nt a
      else if str_contains template_name ''gemmTT'' then create11 mproduct_tt a
      else Inl (invalid_argument (''Invalid expression: '' @ template_name)))"

subsection \<open>\<^verbatim>\<open>import\<close>\<close>

type_synonym model_map_t = "(expression_type \<times> numeric_type) \<rightharpoonup> model"

text \<open>The three constructors of \<^verbatim>\<open>model\<close> used here and in the registry.\<close>

definition model_with_predictor ::
  "(int list \<Rightarrow> float list) \<Rightarrow> base list \<Rightarrow> command_queue \<Rightarrow> model" where
  "model_with_predictor predict ts q =
     \<lparr>templates = ts, predictor = Some predict, hardcoded = Map.empty,
      lazy_programs = Map.empty, queue = q\<rparr>"

definition model_of_templates :: "base list \<Rightarrow> command_queue \<Rightarrow> model" where
  "model_of_templates ts q =
     \<lparr>templates = ts, predictor = None, hardcoded = Map.empty,
      lazy_programs = Map.empty, queue = q\<rparr>"

definition model_of_template :: "base \<Rightarrow> command_queue \<Rightarrow> model" where
  "model_of_template tp q = model_of_templates [tp] q"

text \<open>The operation and data type names the importer looks for, in its order.\<close>

definition operations :: "string list" where
  "operations =
     [''vaxpy'', ''dot'', ''maxpy'', ''gemvN'', ''gemvT'', ''gemmNN'', ''gemmTN'', ''gemmTT'']"

definition dtype :: "string list" where
  "dtype = [''float32'', ''float64'']"

text \<open>The loop over \<^verbatim>\<open>profiles\<close>: one template per profile.\<close>

fun create_all :: "string \<Rightarrow> json list \<Rightarrow> error + base list" where
  "create_all op [] = Inr []"
| "create_all op (profile # profiles) =
     (case to_int_array profile of
        Inl e \<Rightarrow> Inl e
      | Inr a \<Rightarrow>
          (case create op a of
             Inl e \<Rightarrow> Inl e
           | Inr t \<Rightarrow>
               (case create_all op profiles of
                  Inl e \<Rightarrow> Inl e
                | Inr ts \<Rightarrow> Inr (t # ts))))"

text \<open>
  The body of the inner loop for one data type name \<open>dt\<close> found under the operation:
  \<open>leaf\<close> is \<^verbatim>\<open>document[opcstr][dtcstr]\<close>. The constructor of the random forest is the
  parameter \<open>random_forest\<close>.
\<close>

definition import_leaf ::
  "(json \<Rightarrow> error + (int list \<Rightarrow> float list)) \<Rightarrow> command_queue \<Rightarrow> string \<Rightarrow>
   expression_type \<Rightarrow> string \<Rightarrow> json \<Rightarrow> model_map_t \<Rightarrow> error + model_map_t" where
  "import_leaf random_forest q op etype dt leaf result =
     (case get_dtype dt of
        Inl e \<Rightarrow> Inl e
      | Inr ntype \<Rightarrow>
          (case member leaf ''profiles'' of
             Inl e \<Rightarrow> Inl e
           | Inr profiles \<Rightarrow>
               (case elements profiles of
                  Inl e \<Rightarrow> Inl e
                | Inr ps \<Rightarrow>
                    (case create_all op ps of
                       Inl e \<Rightarrow> Inl e
                     | Inr ts \<Rightarrow>
                         if 1 < length ts
                         then (case member leaf ''predictor'' of
                                 Inl e \<Rightarrow> Inl e
                               | Inr pd \<Rightarrow>
                                   (case random_forest pd of
                                      Inl e \<Rightarrow> Inl e
                                    | Inr predict \<Rightarrow>
                                        Inr (result((etype, ntype) \<mapsto>
                                               model_with_predictor predict ts q))))
                         else Inr (result((etype, ntype) \<mapsto> model_of_templates ts q))))))"

text \<open>The inner loop, over the data type names; \<open>opdoc\<close> is \<^verbatim>\<open>document[opcstr]\<close>.\<close>

fun import_dtypes ::
  "(json \<Rightarrow> error + (int list \<Rightarrow> float list)) \<Rightarrow> command_queue \<Rightarrow> string \<Rightarrow>
   expression_type \<Rightarrow> json \<Rightarrow> string list \<Rightarrow> model_map_t \<Rightarrow> error + model_map_t" where
  "import_dtypes random_forest q op etype opdoc [] result = Inr result"
| "import_dtypes random_forest q op etype opdoc (dt # dts) result =
     (case HasMember opdoc dt of
        Inl e \<Rightarrow> Inl e
      | Inr False \<Rightarrow> import_dtypes random_forest q op etype opdoc dts result
      | Inr True \<Rightarrow>
          (case member opdoc dt of
             Inl e \<Rightarrow> Inl e
           | Inr leaf \<Rightarrow>
               (case import_leaf random_forest q op etype dt leaf result of
                  Inl e \<Rightarrow> Inl e
                | Inr result' \<Rightarrow> import_dtypes random_forest q op etype opdoc dts result')))"

text \<open>The outer loop, over the operation names.\<close>

fun import_operations ::
  "(json \<Rightarrow> error + (int list \<Rightarrow> float list)) \<Rightarrow> command_queue \<Rightarrow> json \<Rightarrow>
   string list \<Rightarrow> model_map_t \<Rightarrow> error + model_map_t" where
  "import_operations random_forest q document [] result = Inr result"
| "import_operations random_forest q document (op # ops) result =
     (case HasMember document op of
        Inl e \<Rightarrow> Inl e
      | Inr False \<Rightarrow> import_operations random_forest q document ops result
      | Inr True \<Rightarrow>
          (case get_expression_type op of
             Inl e \<Rightarrow> Inl e
           | Inr etype \<Rightarrow>
               (case member document op of
                  Inl e \<Rightarrow> Inl e
                | Inr opdoc \<Rightarrow>
                    (case import_dtypes random_forest q op etype opdoc dtype result of
                       Inl e \<Rightarrow> Inl e
                     | Inr result' \<Rightarrow>
                         import_operations random_forest q document ops result'))))"

text \<open>
  \<open>import\<close>, from the parsed document on (reading and parsing the file is rapidjson's
  work and is not modelled).
\<close>

definition import ::
  "(json \<Rightarrow> error + (int list \<Rightarrow> float list)) \<Rightarrow> json \<Rightarrow> command_queue \<Rightarrow> model_map_t \<Rightarrow>
   error + model_map_t" where
  "import random_forest document q result =
     import_operations random_forest q document operations result"


subsection \<open>Concrete inputs\<close>

text \<open>
  A backend over expressions that are vector sizes: every traversal writes the token
  \<open>v\<close>, the input sizes are the sizes of the batch, every template generates one
  source. A device, a queue on context 7, a batch of one vector of 64 elements.
\<close>

definition ex_backend :: "(nat, unit) backend" where
  "ex_backend =
     \<lparr>new_binder = (\<lambda>policy. ()),
      traverse = (\<lambda>binder e. (''v'', binder)),
      input_sizes = (\<lambda>t se. map int (se_data se)),
      generate = (\<lambda>t i se dev. [''kernel''])\<rparr>"

definition ex_device :: device where
  "ex_device = \<lparr>CL_DEVICE_EXTENSIONS = ''cl_khr_fp64''\<rparr>"

definition ex_queue :: command_queue where
  "ex_queue = \<lparr>CL_QUEUE_CONTEXT = 7, CL_QUEUE_DEVICE = ex_device, submitted = []\<rparr>"

definition ex_batch :: "nat symbolic_expressions_container" where
  "ex_batch = \<lparr>se_order = SEQUENTIAL, se_data = [64], se_context = 7\<rparr>"

text \<open>Two and three templates; a predictor that always prefers variant 1.\<close>

definition ex_templates :: "base list" where
  "ex_templates =
     [vaxpy 1 64 128 FETCH_FROM_GLOBAL_STRIDED, vaxpy 4 64 128 FETCH_FROM_GLOBAL_CONTIGUOUS]"

definition ex_model :: model where
  "ex_model = model_with_predictor (\<lambda>x. [Finite 2, Finite 1]) ex_templates ex_queue"

definition ex_model_tuned :: model where
  "ex_model_tuned = ex_model\<lparr>hardcoded := [[64] \<mapsto> 0]\<rparr>"

definition ex_model_ties :: model where
  "ex_model_ties =
     model_with_predictor (\<lambda>x. [Finite 3, Finite 1, Finite 1])
       (ex_templates @ [vaxpy 2 32 64 FETCH_FROM_LOCAL]) ex_queue"

text \<open>
  Three templates with the override \<open>[64] \<mapsto> 2\<close>, which is neither the default label
  nor the label the predictor prefers; and a predictor whose first cost is NaN.
\<close>

definition ex_model_override :: model where
  "ex_model_override = ex_model_ties\<lparr>hardcoded := [[64] \<mapsto> 2]\<rparr>"

definition ex_model_nan :: model where
  "ex_model_nan =
     model_with_predictor (\<lambda>x. [NaN, Finite 1, Finite 0])
       (ex_templates @ [vaxpy 2 32 64 FETCH_FROM_LOCAL]) ex_queue"

definition ex_model_plain :: model where
  "ex_model_plain = model_of_templates ex_templates ex_queue"

definition ex_model_three :: model where
  "ex_model_three =
     model_of_templates (ex_templates @ [vaxpy 2 32 64 FETCH_FROM_LOCAL]) ex_queue"


text \<open>A backend whose traversal of one expression writes 255 characters.\<close>

definition ex_long_backend :: "(nat, unit) backend" where
  "ex_long_backend = ex_backend\<lparr>traverse := (\<lambda>binder e. (replicate 255 (CHR ''a''), binder))\<rparr>"

text \<open>
  Descriptions: one matrix-product profile for \<open>float32\<close> under a given operation name;
  one with an operation name and a data type name that are not recognised; one with
  two profiles and a predictor. A random forest constructor that accepts any
  description, and one that rejects every description with an invalid-argument
  exception.
\<close>

definition ex_random_forest :: "json \<Rightarrow> error + (int list \<Rightarrow> float list)" where
  "ex_random_forest pd = Inr (\<lambda>x. [Finite 2, Finite 1])"

definition ex_failing_forest :: "json \<Rightarrow> error + (int list \<Rightarrow> float list)" where
  "ex_failing_forest pd = Inl (invalid_argument ''predictor'')"

definition ex_gemm_profile :: "int list" where
  "ex_gemm_profile = [1, 8, 8, 8, 4, 1, 4, 0, 0, 8, 8]"

definition ex_gemm_document :: "string \<Rightarrow> json" where
  "ex_gemm_document name =
     JObject [(name,
       JObject [(''float32'',
         JObject [(''profiles'', JArray [JArray (map JInt ex_gemm_profile)])])])]"

definition ex_unknown_document :: json where
  "ex_unknown_document =
     JObject
       [(''axpy'', JObject [(''float32'', JObject [(''profiles'', JArray [])])]),
        (''vaxpy'', JObject [(''float16'', JObject [(''profiles'', JArray [])])])]"

definition ex_two_profiles_document :: json where
  "ex_two_profiles_document =
     JObject [(''vaxpy'',
       JObject [(''float32'',
         JObject [(''profiles'', JArray [JArray (map JInt [1, 64, 128, 1]),
                                         JArray (map JInt [4, 64, 128, 2])]),
                  (''predictor'', JNull)])])]"

section \<open>Properties\<close>

subsection \<open>Auxiliary facts\<close>

text \<open>
  \<open>min_element\<close> returns the first minimum whenever the comparison is a strict weak
  ordering of the elements of the vector.
\<close>

lemma min_element_loop_first:
  "\<forall>a\<in>set v. \<forall>b\<in>set v. cmp a b \<longrightarrow> \<not> cmp b a \<Longrightarrow>
   \<forall>a\<in>set v. \<forall>b\<in>set v. \<forall>c\<in>set v. cmp a b \<longrightarrow> cmp b c \<longrightarrow> cmp a c \<Longrightarrow>
   \<forall>a\<in>set v. \<forall>b\<in>set v. \<forall>c\<in>set v. \<not> cmp a b \<longrightarrow> \<not> cmp b c \<longrightarrow> \<not> cmp a c \<Longrightarrow>
   smallest < first \<Longrightarrow> first \<le> length v \<Longrightarrow>
   (\<forall>j<first. \<not> cmp (v ! j) (v ! smallest)) \<Longrightarrow> (\<forall>j<smallest. cmp (v ! smallest) (v ! j)) \<Longrightarrow>
   min_element_loop cmp v smallest first < length v \<and>
   (\<forall>j<length v. \<not> cmp (v ! j) (v ! min_element_loop cmp v smallest first)) \<and>
   (\<forall>j<min_element_loop cmp v smallest first. cmp (v ! min_element_loop cmp v smallest first) (v ! j))"
proof (induction cmp v smallest first rule: min_element_loop.induct)
  case (1 cmp v smallest first)
  note asym = "1.prems"(1) and trans = "1.prems"(2) and negtrans = "1.prems"(3)
  note below = "1.prems"(6) and before = "1.prems"(7)
  show ?case
  proof (cases "first < length v")
    case False
    with "1.prems"(5) have "first = length v" by simp
    moreover have "min_element_loop cmp v smallest first = smallest"
      using False by (subst min_element_loop.simps) simp
    ultimately show ?thesis using "1.prems"(4) below before by simp
  next
    case True
    let ?s = "if cmp (v ! first) (v ! smallest) then first else smallest"
    from True have mf: "v ! first \<in> set v" by simp
    from True "1.prems"(4) have ms: "v ! smallest \<in> set v" by simp
    have mj: "v ! j \<in> set v" if "j < Suc first" for j
      using that True by simp
    have a: "?s < Suc first" using "1.prems"(4) by simp
    have b: "Suc first \<le> length v" using True by simp
    have c: "\<forall>j<Suc first. \<not> cmp (v ! j) (v ! ?s)"
    proof (cases "cmp (v ! first) (v ! smallest)")
      case lt: True
      have "\<not> cmp (v ! j) (v ! first)" if j: "j < Suc first" for j
      proof (cases "j = first")
        case True
        from asym[rule_format, OF mf mf] have "\<not> cmp (v ! first) (v ! first)" by blast
        with True show ?thesis by simp
      next
        case False
        with j have "j < first" by simp
        with below have n: "\<not> cmp (v ! j) (v ! smallest)" by simp
        show ?thesis
        proof
          assume "cmp (v ! j) (v ! first)"
          from trans[rule_format, OF mj[OF j] mf ms this lt] n show False by simp
        qed
      qed
      with lt show ?thesis by simp
    next
      case nlt: False
      have "\<not> cmp (v ! j) (v ! smallest)" if j: "j < Suc first" for j
      proof (cases "j = first")
        case True
        with nlt show ?thesis by simp
      next
        case False
        with j have "j < first" by simp
        with below show ?thesis by simp
      qed
      with nlt show ?thesis by simp
    qed
    have d: "\<forall>j<?s. cmp (v ! ?s) (v ! j)"
    proof (cases "cmp (v ! first) (v ! smallest)")
      case lt: True
      have "cmp (v ! first) (v ! j)" if j: "j < first" for j
      proof (rule ccontr)
        assume n1: "\<not> cmp (v ! first) (v ! j)"
        from j have j': "j < Suc first" by simp
        from j below have n2: "\<not> cmp (v ! j) (v ! smallest)" by simp
        from negtrans[rule_format, OF mf mj[OF j'] ms n1 n2] lt show False by simp
      qed
      with lt show ?thesis by simp
    next
      case False
      with before show ?thesis by simp
    qed
    have "min_element_loop cmp v smallest first = min_element_loop cmp v ?s (Suc first)"
      using True by (subst min_element_loop.simps) simp
    with "1.IH"[OF True asym trans negtrans a b c d] show ?thesis by simp
  qed
qed

lemma min_element_first:
  assumes "v \<noteq> []"
    and "\<forall>a\<in>set v. \<forall>b\<in>set v. cmp a b \<longrightarrow> \<not> cmp b a"
    and "\<forall>a\<in>set v. \<forall>b\<in>set v. \<forall>c\<in>set v. cmp a b \<longrightarrow> cmp b c \<longrightarrow> cmp a c"
    and "\<forall>a\<in>set v. \<forall>b\<in>set v. \<forall>c\<in>set v. \<not> cmp a b \<longrightarrow> \<not> cmp b c \<longrightarrow> \<not> cmp a c"
  shows "min_element cmp v < length v"
    and "\<forall>j<length v. \<not> cmp (v ! j) (v ! min_element cmp v)"
    and "\<forall>j<min_element cmp v. cmp (v ! min_element cmp v) (v ! j)"
proof -
  from assms(1) have m: "v ! 0 \<in> set v" by simp
  have "0 < (1::nat)" "1 \<le> length v" using assms(1) by (simp_all add: Suc_leI)
  moreover have "\<forall>j<1::nat. \<not> cmp (v ! j) (v ! 0)"
  proof -
    from assms(2)[rule_format, OF m m] have "\<not> cmp (v ! 0) (v ! 0)" by blast
    then show ?thesis by simp
  qed
  moreover have "\<forall>j<0::nat. cmp (v ! 0) (v ! j)" by simp
  ultimately have *: "min_element_loop cmp v 0 1 < length v \<and>
   (\<forall>j<length v. \<not> cmp (v ! j) (v ! min_element_loop cmp v 0 1)) \<and>
   (\<forall>j<min_element_loop cmp v 0 1. cmp (v ! min_element_loop cmp v 0 1) (v ! j))"
    by (rule min_element_loop_first[OF assms(2,3,4)])
  from * assms(1) show "min_element cmp v < length v" by (simp add: min_element_def)
  from * assms(1) show "\<forall>j<length v. \<not> cmp (v ! j) (v ! min_element cmp v)"
    by (simp add: min_element_def)
  from * assms(1) show "\<forall>j<min_element cmp v. cmp (v ! min_element cmp v) (v ! j)"
    by (simp add: min_element_def)
qed


text \<open>Away from NaN, the comparison of floats is a strict weak ordering.\<close>

lemma float_less_asym: "float_less a b \<Longrightarrow> \<not> float_less b a"
  by (cases a; cases b) auto

lemma float_less_trans: "float_less a b \<Longrightarrow> float_less b c \<Longrightarrow> float_less a c"
  by (cases a; cases b; cases c) auto

lemma float_less_negtrans:
  "a \<noteq> NaN \<Longrightarrow> b \<noteq> NaN \<Longrightarrow> c \<noteq> NaN \<Longrightarrow>
   \<not> float_less a b \<Longrightarrow> \<not> float_less b c \<Longrightarrow> \<not> float_less a c"
  by (cases a; cases b; cases c) auto

lemma min_element_first_float:
  assumes "costs \<noteq> []" and "NaN \<notin> set costs"
  shows "min_element float_less costs < length costs"
    and "\<forall>j<length costs. \<not> float_less (costs ! j) (costs ! min_element float_less costs)"
    and "\<forall>j<min_element float_less costs.
           float_less (costs ! min_element float_less costs) (costs ! j)"
proof -
  have swo: "\<forall>a\<in>set costs. \<forall>b\<in>set costs. float_less a b \<longrightarrow> \<not> float_less b a"
    "\<forall>a\<in>set costs. \<forall>b\<in>set costs. \<forall>c\<in>set costs.
       float_less a b \<longrightarrow> float_less b c \<longrightarrow> float_less a c"
    "\<forall>a\<in>set costs. \<forall>b\<in>set costs. \<forall>c\<in>set costs.
       \<not> float_less a b \<longrightarrow> \<not> float_less b c \<longrightarrow> \<not> float_less a c"
    using assms(2)
    by (blast dest: float_less_asym, blast intro: float_less_trans,
        metis float_less_negtrans)
  note f = min_element_first[OF assms(1) swo]
  from f show "min_element float_less costs < length costs"
    and "\<forall>j<length costs. \<not> float_less (costs ! j) (costs ! min_element float_less costs)"
    and "\<forall>j<min_element float_less costs.
           float_less (costs ! min_element float_less costs) (costs ! j)"
    by blast+
qed

lemma init_frame:
  "init B m se ctx dev force = Inr (m1, compilers) \<Longrightarrow>
   templates m1 = templates m \<and> predictor m1 = predictor m \<and>
   hardcoded m1 = hardcoded m \<and> queue m1 = queue m"
  by (auto simp: init_def Let_def split: if_splits sum.splits)

lemma execute_Inr_D:
  assumes "execute B m se bypass force = Inr m'"
  shows "se_context se = CL_QUEUE_CONTEXT (queue m)"
    and "\<exists>m1 compilers. init B m se (se_context se) (CL_QUEUE_DEVICE (queue m)) force = Inr (m1, compilers)"
    and "templates m \<noteq> []"
proof -
  from assms show ctx: "se_context se = CL_QUEUE_CONTEXT (queue m)"
    by (auto simp: execute_def Let_def split: if_splits)
  from assms ctx obtain m1 compilers where
    i: "init B m se (se_context se) (CL_QUEUE_DEVICE (queue m)) force = Inr (m1, compilers)"
    by (auto simp: execute_def Let_def split: sum.splits)
  then show "\<exists>m1 compilers. init B m se (se_context se) (CL_QUEUE_DEVICE (queue m)) force = Inr (m1, compilers)"
    by blast
  from assms ctx i init_frame[OF i] show "templates m \<noteq> []"
    by (auto simp: execute_def Let_def split: list.splits)
qed

lemma execute_after_init:
  assumes "se_context se = CL_QUEUE_CONTEXT (queue m)"
    and "init B m se (se_context se) (CL_QUEUE_DEVICE (queue m)) force = Inr (m1, compilers)"
    and "templates m \<noteq> []"
  shows "execute B m se bypass force =
    (case (case hardcoded m (input_sizes B (templates m ! 0) se) of
             Some l \<Rightarrow> Inr l
           | None \<Rightarrow>
               if bypass \<or> predictor m = None then Inr 0
               else (case predictor m of
                       None \<Rightarrow> Inl null_pointer
                     | Some predict \<Rightarrow> Inr (min_element float_less (predict (input_sizes B (templates m ! 0) se))))) of
       Inl e \<Rightarrow> Inl e
     | Inr l \<Rightarrow> if l < length (templates m)
                then Inr (m1\<lparr>queue := enqueue (queue m) l\<rparr>)
                else Inl out_of_bounds)"
proof -
  note fr = init_frame[OF assms(2)]
  from assms(3) obtain t0 ts where t: "templates m = t0 # ts" by (cases "templates m") auto
  show ?thesis
    unfolding execute_def Let_def using assms(1,2) fr t
    by (simp cong: sum.case_cong option.case_cong if_cong)
qed


text \<open>Evaluation of the concrete inputs.\<close>

lemmas ex_defs =
  ex_backend_def ex_device_def ex_queue_def ex_batch_def ex_templates_def ex_model_def
  ex_model_tuned_def ex_model_ties_def ex_model_plain_def ex_model_three_def
  ex_model_override_def ex_model_nan_def
  model_with_predictor_def model_of_templates_def

lemmas run_defs =
  execute_def init_def Let_def fill_program_name_def program_name_size_def
  c_str_to_string_def lazy_programs_at_def lazy_programs_set_def add_def
  define_extension_def enqueue_def finish_def

text \<open>The loops of \<open>init\<close> keep the number, the names and the flags of the shells.\<close>

lemma add_sources_shells:
  "add_sources to_init j cur = Inr filled \<Longrightarrow>
   length filled = length to_init \<and> map lc_name filled = map lc_name to_init"
proof (induction cur arbitrary: to_init j)
  case Nil
  then show ?case by simp
next
  case (Cons src cur)
  from Cons.prems have j: "j < length to_init"
    by (simp split: if_splits)
  with Cons.prems have "add_sources (to_init[j := add (to_init ! j) src]) (Suc j) cur = Inr filled"
    by simp
  from Cons.IH[OF this] have "length filled = length to_init"
    and "map lc_name filled = map lc_name (to_init[j := add (to_init ! j) src])"
    by simp_all
  moreover have "map lc_name (to_init[j := add (to_init ! j) src]) = map lc_name to_init"
    using j by (simp add: map_update add_def list_update_same_conv)
  ultimately show ?case by simp
qed

lemma generate_all_shells:
  "generate_all B se dev i ts to_init = Inr filled \<Longrightarrow>
   length filled = length to_init \<and> map lc_name filled = map lc_name to_init"
proof (induction ts arbitrary: to_init i)
  case Nil
  then show ?case by simp
next
  case (Cons t ts)
  from Cons.prems obtain mid where
    a: "add_sources to_init 0 (generate B t i se dev) = Inr mid"
    and g: "generate_all B se dev (Suc i) ts mid = Inr filled"
    by (auto split: sum.splits)
  from add_sources_shells[OF a] Cons.IH[OF g] show ?case by simp
qed

lemma add_sources_error:
  "add_sources to_init j cur = Inl e \<Longrightarrow> e = out_of_bounds"
  by (induction cur arbitrary: to_init j) (auto split: if_splits)

lemma generate_all_error:
  "generate_all B se dev i ts to_init = Inl e \<Longrightarrow> e = out_of_bounds"
  by (induction ts arbitrary: to_init i) (auto split: sum.splits dest: add_sources_error)

lemma lazy_programs_at_set:
  "lazy_programs_at (lazy_programs_set lp c n v) c n = v"
  by (simp add: lazy_programs_at_def lazy_programs_set_def)

text \<open>\<open>init\<close> on a key that holds a non-empty vector, and the cache after \<open>init\<close>.\<close>

lemma init_hit:
  assumes "length (fill_program_name B se BIND_TO_HANDLE) \<le> program_name_size"
    and "lazy_programs_at (lazy_programs m) ctx
           (c_str_to_string (fill_program_name B se BIND_TO_HANDLE)) = compilers"
    and "compilers \<noteq> []"
  shows "init B m se ctx dev force = Inr (m, compilers)"
  using assms by (simp add: init_def Let_def)

lemma init_miss:
  assumes "init B m se ctx dev force = Inr (m1, compilers)"
    and "lazy_programs_at (lazy_programs m) ctx
           (c_str_to_string (fill_program_name B se BIND_TO_HANDLE)) = []"
  shows "generate_all B se dev 0 (templates m)
           [\<lparr>lc_context = ctx,
             lc_name = c_str_to_string (fill_program_name B se BIND_TO_HANDLE),
             lc_force_recompilation = force,
             lc_sources = [define_extension (CL_DEVICE_EXTENSIONS dev) ''cl_khr_fp64'']\<rparr>,
            \<lparr>lc_context = ctx,
             lc_name = c_str_to_string (fill_program_name B se BIND_TO_HANDLE) @ ''_fb'',
             lc_force_recompilation = force,
             lc_sources = [define_extension (CL_DEVICE_EXTENSIONS dev) ''cl_khr_fp64'']\<rparr>]
         = Inr compilers"
    and "m1 = m\<lparr>lazy_programs := lazy_programs_set (lazy_programs m) ctx
                  (c_str_to_string (fill_program_name B se BIND_TO_HANDLE)) compilers\<rparr>"
  using assms by (auto simp: init_def Let_def add_def split: if_splits sum.splits)

lemma init_post:
  assumes "init B m se ctx dev force = Inr (m1, compilers)"
  shows "length (fill_program_name B se BIND_TO_HANDLE) \<le> program_name_size"
    and "lazy_programs_at (lazy_programs m1) ctx
           (c_str_to_string (fill_program_name B se BIND_TO_HANDLE)) = compilers"
    and "compilers \<noteq> []"
proof -
  let ?pname = "c_str_to_string (fill_program_name B se BIND_TO_HANDLE)"
  from assms show "length (fill_program_name B se BIND_TO_HANDLE) \<le> program_name_size"
    by (auto simp: init_def Let_def split: if_splits)
  show "lazy_programs_at (lazy_programs m1) ctx ?pname = compilers"
  proof (cases "lazy_programs_at (lazy_programs m) ctx ?pname = []")
    case True
    from init_miss(2)[OF assms True] show ?thesis by (simp add: lazy_programs_at_set)
  next
    case False
    with assms show ?thesis by (auto simp: init_def Let_def split: if_splits)
  qed
  show "compilers \<noteq> []"
  proof (cases "lazy_programs_at (lazy_programs m) ctx ?pname = []")
    case True
    from generate_all_shells[OF init_miss(1)[OF assms True]] show ?thesis by auto
  next
    case False
    with assms show ?thesis by (auto simp: init_def Let_def split: if_splits)
  qed
qed

lemma lazy_programs_at_set_other:
  "c' \<noteq> c \<or> n' \<noteq> n \<Longrightarrow>
   lazy_programs_at (lazy_programs_set lp c n v) c' n' = lazy_programs_at lp c' n'"
  by (auto simp: lazy_programs_at_def lazy_programs_set_def split: option.splits)

text \<open>A vector of the cache that is not empty is not touched by \<open>init\<close>.\<close>

lemma init_keeps_built:
  assumes "init B m se ctx dev force = Inr (m1, compilers)"
    and "lazy_programs_at (lazy_programs m) c n \<noteq> []"
  shows "lazy_programs_at (lazy_programs m1) c n = lazy_programs_at (lazy_programs m) c n"
proof (cases "lazy_programs_at (lazy_programs m) ctx
                (c_str_to_string (fill_program_name B se BIND_TO_HANDLE)) = []")
  case True
  with assms(2) have "c \<noteq> ctx \<or> n \<noteq> c_str_to_string (fill_program_name B se BIND_TO_HANDLE)"
    by auto
  with init_miss(2)[OF assms(1) True] show ?thesis
    by (simp add: lazy_programs_at_set_other)
next
  case False
  with assms(1) show ?thesis by (auto simp: init_def Let_def split: if_splits)
qed

text \<open>What \<open>execute\<close> leaves unchanged, and what it submits under an override.\<close>

lemma execute_frame:
  assumes "execute B m se bypass force = Inr m'"
  shows "hardcoded m' = hardcoded m" and "templates m' = templates m"
    and "predictor m' = predictor m"
proof -
  note d = execute_Inr_D[OF assms]
  from d(2) obtain m1 cs where
    i: "init B m se (se_context se) (CL_QUEUE_DEVICE (queue m)) force = Inr (m1, cs)"
    by blast
  from assms init_frame[OF i]
  have "hardcoded m' = hardcoded m \<and> templates m' = templates m \<and> predictor m' = predictor m"
    unfolding execute_after_init[OF d(1) i d(3)]
    by (auto split: sum.splits if_splits)
  then show "hardcoded m' = hardcoded m" and "templates m' = templates m"
    and "predictor m' = predictor m"
    by simp_all
qed

lemma execute_submits_override:
  assumes "execute B m se bypass force = Inr m'"
    and "hardcoded m (input_sizes B (templates m ! 0) se) = Some l"
  shows "submitted (queue m') = submitted (queue m) @ [Enqueue l]"
proof -
  note d = execute_Inr_D[OF assms(1)]
  from d(2) obtain m1 compilers where
    i: "init B m se (se_context se) (CL_QUEUE_DEVICE (queue m)) force = Inr (m1, compilers)"
    by blast
  from assms(1) have "m' = m1\<lparr>queue := enqueue (queue m) l\<rparr>"
    unfolding execute_after_init[OF d(1) i d(3)] using assms(2)
    by (simp split: if_splits)
  then show ?thesis by (simp add: enqueue_def)
qed




text \<open>Facts about the importer.\<close>

lemma map_of_filter_keys:
  "k \<in> S \<Longrightarrow> map_of (filter (\<lambda>kv. fst kv \<in> S) members) k = map_of members k"
  by (induction members) auto

lemma HasMember_filter_keys:
  "k \<in> S \<Longrightarrow> HasMember (JObject (filter (\<lambda>kv. fst kv \<in> S) members)) k = HasMember (JObject members) k"
  by (simp add: map_of_filter_keys)

lemma member_filter_keys:
  "k \<in> S \<Longrightarrow> member (JObject (filter (\<lambda>kv. fst kv \<in> S) members)) k = member (JObject members) k"
  by (simp add: map_of_filter_keys)

lemma import_dtypes_filter_keys:
  "set dts \<subseteq> S \<Longrightarrow>
   import_dtypes random_forest q op etype (JObject (filter (\<lambda>kv. fst kv \<in> S) leaves)) dts result =
   import_dtypes random_forest q op etype (JObject leaves) dts result"
proof (induction dts arbitrary: result)
  case Nil
  then show ?case by simp
next
  case (Cons dt dts)
  from Cons.prems have dt: "dt \<in> S" and rest: "set dts \<subseteq> S" by simp_all
  show ?case
    unfolding import_dtypes.simps HasMember_filter_keys[OF dt] member_filter_keys[OF dt]
    by (simp add: Cons.IH[OF rest] cong: sum.case_cong bool.case_cong)
qed

lemma import_operations_filter_keys:
  "set ops \<subseteq> S \<Longrightarrow>
   import_operations random_forest q (JObject (filter (\<lambda>kv. fst kv \<in> S) members)) ops result =
   import_operations random_forest q (JObject members) ops result"
proof (induction ops arbitrary: result)
  case Nil
  then show ?case by simp
next
  case (Cons op ops)
  from Cons.prems have op: "op \<in> S" and rest: "set ops \<subseteq> S" by simp_all
  show ?case
    unfolding import_operations.simps HasMember_filter_keys[OF op] member_filter_keys[OF op]
    by (simp add: Cons.IH[OF rest] cong: sum.case_cong bool.case_cong)
qed

text \<open>Where an invalid-argument exception can come from.\<close>

lemma fetch_error: "fetch k = Inl e \<Longrightarrow> e = out_of_bounds"
  by (simp add: fetch_def split: if_splits)

lemma create4_error: "create4 new a = Inl e \<Longrightarrow> e = out_of_bounds"
  by (auto simp: create4_def split: if_splits sum.splits dest: fetch_error)

lemma create5_error: "create5 new a = Inl e \<Longrightarrow> e = out_of_bounds"
  by (auto simp: create5_def split: if_splits sum.splits dest: fetch_error)

lemma create6_error: "create6 new a = Inl e \<Longrightarrow> e = out_of_bounds"
  by (auto simp: create6_def split: if_splits sum.splits dest: fetch_error)

lemma create11_error: "create11 new a = Inl e \<Longrightarrow> e = out_of_bounds"
  by (auto simp: create11_def split: if_splits sum.splits dest: fetch_error)

lemma create_known:
  "create ''vaxpy'' a = create4 vaxpy a"
  "create ''dot'' a = create4 reduction a"
  "create ''maxpy'' a = create6 maxpy a"
  "create ''gemvN'' a = create5 mreduction_rows a"
  "create ''gemvT'' a = create5 mreduction_cols a"
  "create ''gemmNN'' a = create11 mproduct_nn a"
  "create ''gemmTN'' a = create11 mproduct_tn a"
  "create ''gemmNT'' a = create11 mproduct_nt a"
  "create ''gemmTT'' a = create11 mproduct_tt a"
  by (simp_all add: create_def)

lemma create_error:
  assumes "op \<in> set operations" and "create op a = Inl e"
  shows "e = out_of_bounds"
proof -
  from assms(1) consider "op = ''vaxpy''" | "op = ''dot''" | "op = ''maxpy''" | "op = ''gemvN''"
    | "op = ''gemvT''" | "op = ''gemmNN''" | "op = ''gemmTN''" | "op = ''gemmTT''"
    unfolding operations_def by fastforce
  then show ?thesis
  proof cases
    case 1
    with assms(2) show ?thesis by (simp only: create_known) (rule create4_error)
  next
    case 2
    with assms(2) show ?thesis by (simp only: create_known) (rule create4_error)
  next
    case 3
    with assms(2) show ?thesis by (simp only: create_known) (rule create6_error)
  next
    case 4
    with assms(2) show ?thesis by (simp only: create_known) (rule create5_error)
  next
    case 5
    with assms(2) show ?thesis by (simp only: create_known) (rule create5_error)
  next
    case 6
    with assms(2) show ?thesis by (simp only: create_known) (rule create11_error)
  next
    case 7
    with assms(2) show ?thesis by (simp only: create_known) (rule create11_error)
  next
    case 8
    with assms(2) show ?thesis by (simp only: create_known) (rule create11_error)
  qed
qed

lemma GetInt_all_error: "GetInt_all vs = Inl e \<Longrightarrow> e = assertion_failed"
proof (induction vs arbitrary: e)
  case Nil
  then show ?case by simp
next
  case (Cons v vs)
  then show ?case by (cases v) (auto split: sum.splits)
qed

lemma to_int_array_error: "to_int_array a = Inl e \<Longrightarrow> e = assertion_failed"
  by (cases a) (auto simp: to_int_array_def dest: GetInt_all_error)

lemma create_all_error:
  "op \<in> set operations \<Longrightarrow> create_all op profiles = Inl e \<Longrightarrow>
   e = out_of_bounds \<or> e = assertion_failed"
  by (induction profiles arbitrary: e)
     (auto split: sum.splits dest: to_int_array_error create_error)

lemma member_error: "member v name = Inl e \<Longrightarrow> e = assertion_failed"
  by (cases v) (auto split: option.splits)

lemma HasMember_error: "HasMember v name = Inl e \<Longrightarrow> e = assertion_failed"
  by (cases v) auto

lemma elements_error: "elements v = Inl e \<Longrightarrow> e = assertion_failed"
  by (cases v) auto

lemma get_dtype_known: "dt \<in> set dtype \<Longrightarrow> \<exists>ntype. get_dtype dt = Inr ntype"
  by (auto simp: dtype_def get_dtype_def)

lemma get_expression_type_known: "op \<in> set operations \<Longrightarrow> \<exists>etype. get_expression_type op = Inr etype"
  by (auto simp: operations_def get_expression_type_def)

lemma import_leaf_invalid_argument:
  assumes "op \<in> set operations" and "dt \<in> set dtype"
    and "import_leaf random_forest q op etype dt leaf result = Inl (invalid_argument s)"
  shows "\<exists>pd. random_forest pd = Inl (invalid_argument s)"
proof -
  from get_dtype_known[OF assms(2)] obtain ntype where n: "get_dtype dt = Inr ntype" by blast
  from assms(3) n show ?thesis
    unfolding import_leaf_def
    by (auto split: sum.splits if_splits
        dest: member_error elements_error create_all_error[OF assms(1)])
qed

lemma import_dtypes_invalid_argument:
  "op \<in> set operations \<Longrightarrow> set dts \<subseteq> set dtype \<Longrightarrow>
   import_dtypes random_forest q op etype opdoc dts result = Inl (invalid_argument s) \<Longrightarrow>
   \<exists>pd. random_forest pd = Inl (invalid_argument s)"
proof (induction dts arbitrary: result)
  case Nil
  then show ?case by simp
next
  case (Cons dt dts)
  from Cons.prems(2) have dt: "dt \<in> set dtype" and rest: "set dts \<subseteq> set dtype" by simp_all
  from Cons.prems(3) Cons.IH[OF Cons.prems(1) rest] show ?case
    by (auto split: sum.splits bool.splits
        dest: HasMember_error member_error import_leaf_invalid_argument[OF Cons.prems(1) dt])
qed

lemma import_operations_invalid_argument:
  "set ops \<subseteq> set operations \<Longrightarrow>
   import_operations random_forest q document ops result = Inl (invalid_argument s) \<Longrightarrow>
   \<exists>pd. random_forest pd = Inl (invalid_argument s)"
proof (induction ops arbitrary: result)
  case Nil
  then show ?case by simp
next
  case (Cons op ops)
  from Cons.prems(1) have op: "op \<in> set operations" and rest: "set ops \<subseteq> set operations"
    by simp_all
  from get_expression_type_known[OF op] obtain etype where e: "get_expression_type op = Inr etype"
    by blast
  from Cons.prems(2) e Cons.IH[OF rest] show ?case
    by (auto split: sum.splits bool.splits
        dest: HasMember_error member_error import_dtypes_invalid_argument[OF op subset_refl])
qed

subsection \<open>Variant selection in \<open>execute\<close>\<close>

text \<open>
  C1. When the input sizes of the batch (computed by \<^verbatim>\<open>templates_[0]\<close>) have an entry \<open>l\<close>
  in \<^verbatim>\<open>hardcoded_\<close>, then, whatever \<open>bypass_predictor\<close> is and whether or not a
  predictor is attached (the statement holds for every model, so for every predictor
  and whatever it returns): \<open>execute\<close> returns whenever the context of the batch is
  the context of the queue, \<open>init\<close> returns and \<open>l\<close> is the index of a template, and
  it has then submitted the template \<open>l\<close>; and a call that returns is such a call and
  has submitted the template \<open>l\<close>.
\<close>

theorem execute_override_wins:
  assumes "hardcoded m (input_sizes B (templates m ! 0) se) = Some l"
  shows "(se_context se = CL_QUEUE_CONTEXT (queue m) \<longrightarrow>
          init B m se (se_context se) (CL_QUEUE_DEVICE (queue m)) force_recompilation
            = Inr (m1, compilers) \<longrightarrow>
          l < length (templates m) \<longrightarrow>
            execute B m se bypass_predictor force_recompilation
              = Inr (m1\<lparr>queue := enqueue (queue m) l\<rparr>)) \<and>
         (execute B m se bypass_predictor force_recompilation = Inr m' \<longrightarrow>
            se_context se = CL_QUEUE_CONTEXT (queue m) \<and> l < length (templates m) \<and>
            submitted (queue m') = submitted (queue m) @ [Enqueue l])"
proof (intro conjI impI)
  assume c: "se_context se = CL_QUEUE_CONTEXT (queue m)"
    and i: "init B m se (se_context se) (CL_QUEUE_DEVICE (queue m)) force_recompilation
              = Inr (m1, compilers)"
    and l: "l < length (templates m)"
  from l have "templates m \<noteq> []" by auto
  from execute_after_init[OF c i this] assms l
  show "execute B m se bypass_predictor force_recompilation
          = Inr (m1\<lparr>queue := enqueue (queue m) l\<rparr>)"
    by simp
next
  assume e: "execute B m se bypass_predictor force_recompilation = Inr m'"
  then show "se_context se = CL_QUEUE_CONTEXT (queue m)" by (rule execute_Inr_D)
  from e assms show "submitted (queue m') = submitted (queue m) @ [Enqueue l]"
    by (rule execute_submits_override)
  note d = execute_Inr_D[OF e]
  from d(2) obtain m2 cs where
    i: "init B m se (se_context se) (CL_QUEUE_DEVICE (queue m)) force_recompilation = Inr (m2, cs)"
    by blast
  from e show "l < length (templates m)"
    unfolding execute_after_init[OF d(1) i d(3)] using assms
    by (simp split: if_splits)
qed

text \<open>
  The model has three templates, a predictor that prefers variant 1 and the override
  \<open>[64] \<mapsto> 2\<close>; with and without bypass, \<open>execute\<close> returns and has submitted
  variant 2.
\<close>

theorem execute_override_wins_witness:
  "hardcoded ex_model_override (input_sizes ex_backend (templates ex_model_override ! 0) ex_batch) = Some 2 \<and>
   se_context ex_batch = CL_QUEUE_CONTEXT (queue ex_model_override) \<and>
   2 < length (templates ex_model_override) \<and>
   (case init ex_backend ex_model_override ex_batch 7 ex_device False of
      Inl e \<Rightarrow> False
    | Inr (m1, compilers) \<Rightarrow>
        execute ex_backend ex_model_override ex_batch False False
          = Inr (m1\<lparr>queue := enqueue ex_queue 2\<rparr>) \<and>
        execute ex_backend ex_model_override ex_batch True False
          = Inr (m1\<lparr>queue := enqueue ex_queue 2\<rparr>)) \<and>
   (case execute ex_backend ex_model_override ex_batch False False of
      Inl e \<Rightarrow> False
    | Inr m' \<Rightarrow> submitted (queue m') = [Enqueue 2])"
proof -
  have h: "hardcoded ex_model_override (input_sizes ex_backend (templates ex_model_override ! 0) ex_batch) = Some 2"
    and c: "se_context ex_batch = CL_QUEUE_CONTEXT (queue ex_model_override)"
    and l: "2 < length (templates ex_model_override)"
    and q: "queue ex_model_override = ex_queue" "CL_QUEUE_DEVICE ex_queue = ex_device"
      "se_context ex_batch = 7" "submitted ex_queue = []"
    by (simp_all add: ex_defs)
  have "\<exists>m1 cs. init ex_backend ex_model_override ex_batch 7 ex_device False = Inr (m1, cs)"
    by (simp add: ex_defs run_defs)
  then obtain m1 cs where i: "init ex_backend ex_model_override ex_batch 7 ex_device False = Inr (m1, cs)"
    by blast
  from i q have i': "init ex_backend ex_model_override ex_batch (se_context ex_batch)
      (CL_QUEUE_DEVICE (queue ex_model_override)) False = Inr (m1, cs)"
    by simp
  note t = execute_override_wins[OF h, where ?m1.0 = m1 and compilers = cs
      and force_recompilation = False]
  from t[where bypass_predictor = False] c i' l q
  have e1: "execute ex_backend ex_model_override ex_batch False False
          = Inr (m1\<lparr>queue := enqueue ex_queue 2\<rparr>)"
    by simp
  from t[where bypass_predictor = True] c i' l q
  have e2: "execute ex_backend ex_model_override ex_batch True False
          = Inr (m1\<lparr>queue := enqueue ex_queue 2\<rparr>)"
    by simp
  from t[where bypass_predictor = False and m' = "m1\<lparr>queue := enqueue ex_queue 2\<rparr>"] e1 q
  have "submitted (queue (m1\<lparr>queue := enqueue ex_queue 2\<rparr>)) = [Enqueue 2]"
    by simp
  with h c l i e1 e2 show ?thesis by simp
qed

text \<open>
  C4, as the code has it. With no entry in \<^verbatim>\<open>hardcoded_\<close> for the input sizes,
  \<open>bypass_predictor\<close> false and a predictor attached that returns at least one cost and
  no NaN, there is a position \<open>k\<close> of the cost vector whose cost is minimal (no cost is
  less) and before which every cost is strictly larger (the first minimum), such
  that: \<open>execute\<close> returns whenever the context of the batch is the context of the
  queue, \<open>init\<close> returns and \<open>k\<close> is the index of a template, and it has then submitted
  the template \<open>k\<close>; and a call that returns has submitted the template \<open>k\<close>.
\<close>

theorem execute_predicted_minimum:
  assumes "hardcoded m (input_sizes B (templates m ! 0) se) = None"
    and "predictor m = Some predict"
    and "predict (input_sizes B (templates m ! 0) se) = costs"
    and "costs \<noteq> []"
    and "NaN \<notin> set costs"
  shows "\<exists>k<length costs.
           (\<forall>j<length costs. \<not> float_less (costs ! j) (costs ! k)) \<and>
           (\<forall>j<k. float_less (costs ! k) (costs ! j)) \<and>
           (se_context se = CL_QUEUE_CONTEXT (queue m) \<longrightarrow>
            init B m se (se_context se) (CL_QUEUE_DEVICE (queue m)) force_recompilation
              = Inr (m1, compilers) \<longrightarrow>
            k < length (templates m) \<longrightarrow>
              execute B m se False force_recompilation
                = Inr (m1\<lparr>queue := enqueue (queue m) k\<rparr>)) \<and>
           (execute B m se False force_recompilation = Inr m' \<longrightarrow>
              submitted (queue m') = submitted (queue m) @ [Enqueue k])"
proof -
  let ?k = "min_element float_less costs"
  note first = min_element_first_float[OF assms(4,5)]
  have total: "execute B m se False force_recompilation = Inr (m1\<lparr>queue := enqueue (queue m) ?k\<rparr>)"
    if c: "se_context se = CL_QUEUE_CONTEXT (queue m)"
      and i: "init B m se (se_context se) (CL_QUEUE_DEVICE (queue m)) force_recompilation
                = Inr (m1, compilers)"
      and k: "?k < length (templates m)"
  proof -
    from k have "templates m \<noteq> []" by auto
    from execute_after_init[OF c i this] assms(1,2,3) k show ?thesis by simp
  qed
  have partial: "submitted (queue m') = submitted (queue m) @ [Enqueue ?k]"
    if e: "execute B m se False force_recompilation = Inr m'"
  proof -
    note d = execute_Inr_D[OF e]
    from d(2) obtain m2 cs where
      i: "init B m se (se_context se) (CL_QUEUE_DEVICE (queue m)) force_recompilation = Inr (m2, cs)"
      by blast
    from e have "m' = m2\<lparr>queue := enqueue (queue m) ?k\<rparr>"
      unfolding execute_after_init[OF d(1) i d(3)] using assms(1,2,3)
      by (simp split: if_splits)
    then show ?thesis by (simp add: enqueue_def)
  qed
  from first total partial show ?thesis by blast
qed

text \<open>The costs \<open>[3, 1, 1]\<close>: variants 1 and 2 tie, \<open>execute\<close> returns and has submitted variant 1.\<close>

theorem execute_predicted_minimum_witness:
  "hardcoded ex_model_ties (input_sizes ex_backend (templates ex_model_ties ! 0) ex_batch) = None \<and>
   predictor ex_model_ties = Some (\<lambda>x. [Finite 3, Finite 1, Finite 1]) \<and>
   [Finite 3, Finite 1, Finite 1] \<noteq> [] \<and>
   NaN \<notin> set [Finite 3, Finite 1, Finite 1] \<and>
   se_context ex_batch = CL_QUEUE_CONTEXT (queue ex_model_ties) \<and>
   (case init ex_backend ex_model_ties ex_batch 7 ex_device False of
      Inl e \<Rightarrow> False
    | Inr (m1, compilers) \<Rightarrow>
        execute ex_backend ex_model_ties ex_batch False False
          = Inr (m1\<lparr>queue := enqueue ex_queue 1\<rparr>)) \<and>
   (case execute ex_backend ex_model_ties ex_batch False False of
      Inl e \<Rightarrow> False
    | Inr m' \<Rightarrow> submitted (queue m') = [Enqueue 1])"
proof -
  let ?x = "input_sizes ex_backend (templates ex_model_ties ! 0) ex_batch"
  let ?costs = "[Finite 3, Finite 1, Finite 1]"
  have h: "hardcoded ex_model_ties ?x = None"
    and p: "predictor ex_model_ties = Some (\<lambda>x. ?costs)"
    and c: "se_context ex_batch = CL_QUEUE_CONTEXT (queue ex_model_ties)"
    and q: "queue ex_model_ties = ex_queue" "CL_QUEUE_DEVICE ex_queue = ex_device"
      "se_context ex_batch = 7" "submitted ex_queue = []"
      "length (templates ex_model_ties) = 3"
    by (simp_all add: ex_defs)
  have v: "(\<lambda>x. ?costs) ?x = ?costs" and n: "?costs \<noteq> []" and nan: "NaN \<notin> set ?costs"
    by simp_all
  have "\<exists>m1 cs. init ex_backend ex_model_ties ex_batch 7 ex_device False = Inr (m1, cs)"
    by (simp add: ex_defs run_defs)
  then obtain m1 cs where i: "init ex_backend ex_model_ties ex_batch 7 ex_device False = Inr (m1, cs)"
    by blast
  from i q have i': "init ex_backend ex_model_ties ex_batch (se_context ex_batch)
      (CL_QUEUE_DEVICE (queue ex_model_ties)) False = Inr (m1, cs)"
    by simp
  from execute_predicted_minimum[OF h p v n nan, where ?m1.0 = m1 and compilers = cs
      and force_recompilation = False and m' = "m1\<lparr>queue := enqueue ex_queue 1\<rparr>"]
  obtain k where
    k: "k < length ?costs"
      "\<forall>j<length ?costs. \<not> float_less (?costs ! j) (?costs ! k)"
      "\<forall>j<k. float_less (?costs ! k) (?costs ! j)"
      "se_context ex_batch = CL_QUEUE_CONTEXT (queue ex_model_ties) \<longrightarrow>
       init ex_backend ex_model_ties ex_batch (se_context ex_batch)
         (CL_QUEUE_DEVICE (queue ex_model_ties)) False = Inr (m1, cs) \<longrightarrow>
       k < length (templates ex_model_ties) \<longrightarrow>
       execute ex_backend ex_model_ties ex_batch False False
         = Inr (m1\<lparr>queue := enqueue (queue ex_model_ties) k\<rparr>)"
      "execute ex_backend ex_model_ties ex_batch False False = Inr (m1\<lparr>queue := enqueue ex_queue 1\<rparr>) \<longrightarrow>
       submitted (queue (m1\<lparr>queue := enqueue ex_queue 1\<rparr>))
         = submitted (queue ex_model_ties) @ [Enqueue k]"
    by blast
  from k(1) have "k = 0 \<or> k = 1 \<or> k = 2" by auto
  moreover have "k \<noteq> 0"
  proof
    assume "k = 0"
    with k(2)[rule_format, of 1] show False by simp
  qed
  moreover have "k \<noteq> 2"
  proof
    assume "k = 2"
    with k(3)[rule_format, of 1] show False by simp
  qed
  ultimately have k1: "k = 1" by blast
  from k(4) c i' q k1
  have e: "execute ex_backend ex_model_ties ex_batch False False
         = Inr (m1\<lparr>queue := enqueue ex_queue 1\<rparr>)"
    by simp
  with k(5) q k1 have "submitted (queue (m1\<lparr>queue := enqueue ex_queue 1\<rparr>)) = [Enqueue 1]"
    by simp
  with h p n nan c i e show ?thesis by simp
qed

text \<open>
  C4 as stated fails on a NaN: for the costs \<open>[NaN, 1, 0]\<close> every comparison with the
  first cost is false, so \<open>execute\<close> submits variant 0, whose cost is NaN, although the
  cost of variant 2 is less than the cost of variant 1 and no cost is less than it.
\<close>

theorem execute_nan_cost_counterexample:
  "hardcoded ex_model_nan (input_sizes ex_backend (templates ex_model_nan ! 0) ex_batch) = None \<and>
   predictor ex_model_nan = Some (\<lambda>x. [NaN, Finite 1, Finite 0]) \<and>
   (case execute ex_backend ex_model_nan ex_batch False False of
      Inl e \<Rightarrow> False
    | Inr m' \<Rightarrow> submitted (queue m') = [Enqueue 0]) \<and>
   [NaN, Finite 1, Finite 0] ! 0 = NaN \<and>
   float_less ([NaN, Finite 1, Finite 0] ! 2) ([NaN, Finite 1, Finite 0] ! 1) \<and>
   \<not> float_less ([NaN, Finite 1, Finite 0] ! 0) ([NaN, Finite 1, Finite 0] ! 2) \<and>
   \<not> float_less ([NaN, Finite 1, Finite 0] ! 1) ([NaN, Finite 1, Finite 0] ! 2)"
  by (simp add: ex_defs run_defs min_element_def min_element_loop.simps)

text \<open>
  C5. With no entry in \<^verbatim>\<open>hardcoded_\<close> for the input sizes, a call of \<open>execute\<close> that
  returns has submitted variant 0 whenever no predictor is attached (for both values
  of \<open>bypass_predictor\<close>) and whenever \<open>bypass_predictor\<close> is true (for every model).
\<close>

theorem execute_default_variant:
  assumes "execute B m se bypass_predictor force_recompilation = Inr m'"
    and "hardcoded m (input_sizes B (templates m ! 0) se) = None"
    and "bypass_predictor \<or> predictor m = None"
  shows "submitted (queue m') = submitted (queue m) @ [Enqueue 0]"
proof -
  note d = execute_Inr_D[OF assms(1)]
  from d(2) obtain m1 compilers where
    i: "init B m se (se_context se) (CL_QUEUE_DEVICE (queue m)) force_recompilation = Inr (m1, compilers)"
    by blast
  from assms(1) have "m' = m1\<lparr>queue := enqueue (queue m) 0\<rparr>"
    unfolding execute_after_init[OF d(1) i d(3)] using assms(2,3)
    by (simp split: if_splits)
  then show ?thesis by (simp add: enqueue_def)
qed

text \<open>
  A model without predictor, called without bypass; and the model whose predictor
  prefers variant 1, called with bypass.
\<close>

theorem execute_default_variant_witness:
  "hardcoded ex_model_plain (input_sizes ex_backend (templates ex_model_plain ! 0) ex_batch) = None \<and>
   predictor ex_model_plain = None \<and>
   (case execute ex_backend ex_model_plain ex_batch False False of
      Inl e \<Rightarrow> False
    | Inr m' \<Rightarrow> submitted (queue m') = [Enqueue 0]) \<and>
   hardcoded ex_model (input_sizes ex_backend (templates ex_model ! 0) ex_batch) = None \<and>
   (case execute ex_backend ex_model ex_batch True False of
      Inl e \<Rightarrow> False
    | Inr m' \<Rightarrow> submitted (queue m') = [Enqueue 0])"
proof -
  have h: "hardcoded ex_model_plain (input_sizes ex_backend (templates ex_model_plain ! 0) ex_batch) = None"
    and p: "predictor ex_model_plain = None"
    and h': "hardcoded ex_model (input_sizes ex_backend (templates ex_model ! 0) ex_batch) = None"
    by (simp_all add: ex_defs)
  have "\<exists>m'. execute ex_backend ex_model_plain ex_batch False False = Inr m'"
    by (simp add: ex_defs run_defs)
  then obtain m1 where e: "execute ex_backend ex_model_plain ex_batch False False = Inr m1"
    by blast
  have "\<exists>m'. execute ex_backend ex_model ex_batch True False = Inr m'"
    by (simp add: ex_defs run_defs)
  then obtain m2 where e': "execute ex_backend ex_model ex_batch True False = Inr m2"
    by blast
  from p have b: "False \<or> predictor ex_model_plain = None" by simp
  have b': "True \<or> predictor ex_model = None" by simp
  from execute_default_variant[OF e h b] have "submitted (queue m1) = [Enqueue 0]"
    by (simp add: ex_defs)
  moreover from execute_default_variant[OF e' h' b'] have "submitted (queue m2) = [Enqueue 0]"
    by (simp add: ex_defs)
  ultimately show ?thesis using h p h' e e' by simp
qed

subsection \<open>The override table\<close>

text \<open>
  C10. A call of \<open>execute\<close> that returns leaves \<^verbatim>\<open>hardcoded_\<close> as it was, and so does a
  call of \<open>init\<close>; of the member functions, only \<open>tune\<close> assigns to it.
\<close>

theorem execute_keeps_hardcoded:
  "(execute B m se bypass_predictor force_recompilation = Inr m' \<longrightarrow> hardcoded m' = hardcoded m) \<and>
   (init B m se ctx dev force_recompilation = Inr (m1, compilers) \<longrightarrow> hardcoded m1 = hardcoded m)"
proof (intro conjI impI)
  assume "execute B m se bypass_predictor force_recompilation = Inr m'"
  then show "hardcoded m' = hardcoded m" by (rule execute_frame)
next
  assume "init B m se ctx dev force_recompilation = Inr (m1, compilers)"
  then show "hardcoded m1 = hardcoded m" by (simp add: init_frame)
qed

theorem execute_keeps_hardcoded_witness:
  "(case execute ex_backend ex_model_tuned ex_batch False False of
      Inl e \<Rightarrow> False
    | Inr m' \<Rightarrow> hardcoded m' = [[64] \<mapsto> 0]) \<and>
   (case init ex_backend ex_model_tuned ex_batch 7 ex_device False of
      Inl e \<Rightarrow> False
    | Inr (m1, compilers) \<Rightarrow> hardcoded m1 = [[64] \<mapsto> 0])"
proof -
  have "\<exists>m'. execute ex_backend ex_model_tuned ex_batch False False = Inr m'"
    by (simp add: ex_defs run_defs)
  then obtain m' where e: "execute ex_backend ex_model_tuned ex_batch False False = Inr m'"
    by blast
  have "\<exists>m1 cs. init ex_backend ex_model_tuned ex_batch 7 ex_device False = Inr (m1, cs)"
    by (simp add: ex_defs run_defs)
  then obtain m1 cs where i: "init ex_backend ex_model_tuned ex_batch 7 ex_device False = Inr (m1, cs)"
    by blast
  from execute_keeps_hardcoded[of ex_backend ex_model_tuned ex_batch False False m' 7 ex_device m1 cs] e i
  have "hardcoded m' = hardcoded ex_model_tuned" "hardcoded m1 = hardcoded ex_model_tuned"
    by simp_all
  then have "hardcoded m' = [[64] \<mapsto> 0]" "hardcoded m1 = [[64] \<mapsto> 0]"
    by (simp_all add: ex_defs)
  with e i show ?thesis by simp
qed

subsection \<open>The program cache\<close>

text \<open>
  C7. After a call of \<open>init\<close> has returned, a second call on the resulting model, for the
  same context and a batch with the same program name (whatever its device and its
  recompilation flag), returns the same model and the same vector of lazy compilers:
  nothing is constructed and no source is added. Likewise a second \<open>execute\<close> with such
  a batch leaves \<^verbatim>\<open>lazy_programs_\<close> as the first one left it. And a call of \<open>init\<close> for
  any batch and context leaves every vector of the cache that is not empty as it is,
  so the vector of a key is built at most once.
\<close>

theorem init_idempotent:
  assumes "fill_program_name B se2 BIND_TO_HANDLE = fill_program_name B se1 BIND_TO_HANDLE"
  shows "(init B m se1 ctx dev1 force1 = Inr (m1, compilers) \<longrightarrow>
            init B m1 se2 ctx dev2 force2 = Inr (m1, compilers)) \<and>
         (execute B m se1 bypass1 force1 = Inr m' \<longrightarrow>
          execute B m' se2 bypass2 force2 = Inr m'' \<longrightarrow>
            lazy_programs m'' = lazy_programs m') \<and>
         (init B m se3 ctx3 dev3 force3 = Inr (m3, compilers3) \<longrightarrow>
          lazy_programs_at (lazy_programs m) c n \<noteq> [] \<longrightarrow>
            lazy_programs_at (lazy_programs m3) c n = lazy_programs_at (lazy_programs m) c n)"
proof (intro conjI impI)
  assume i: "init B m se1 ctx dev1 force1 = Inr (m1, compilers)"
  from init_post[OF i] assms show "init B m1 se2 ctx dev2 force2 = Inr (m1, compilers)"
    by (intro init_hit) simp_all
next
  assume e1: "execute B m se1 bypass1 force1 = Inr m'"
    and e2: "execute B m' se2 bypass2 force2 = Inr m''"
  note d1 = execute_Inr_D[OF e1] and d2 = execute_Inr_D[OF e2]
  from d1(2) obtain m1 cs where
    i1: "init B m se1 (se_context se1) (CL_QUEUE_DEVICE (queue m)) force1 = Inr (m1, cs)"
    by blast
  from e1 have m': "lazy_programs m' = lazy_programs m1" "CL_QUEUE_CONTEXT (queue m') = CL_QUEUE_CONTEXT (queue m)"
    unfolding execute_after_init[OF d1(1) i1 d1(3)]
    by (auto simp: enqueue_def split: sum.splits if_splits)
  from d1(1) d2(1) m'(2) have c: "se_context se2 = se_context se1" by simp
  from init_post[OF i1] assms c m'(1)
  have i2: "init B m' se2 (se_context se2) (CL_QUEUE_DEVICE (queue m')) force2 = Inr (m', cs)"
    by (intro init_hit) simp_all
  from e2 show "lazy_programs m'' = lazy_programs m'"
    unfolding execute_after_init[OF d2(1) i2 d2(3)]
    by (auto split: sum.splits if_splits)
next
  assume "init B m se3 ctx3 dev3 force3 = Inr (m3, compilers3)"
    and "lazy_programs_at (lazy_programs m) c n \<noteq> []"
  then show "lazy_programs_at (lazy_programs m3) c n = lazy_programs_at (lazy_programs m) c n"
    by (rule init_keeps_built)
qed

text \<open>
  The batch \<open>ex_batch\<close> twice, the second time with another device and with forced
  recompilation; and, after it, a batch of another program name on the same context.
\<close>

theorem init_idempotent_witness:
  "fill_program_name ex_backend ex_batch BIND_TO_HANDLE = fill_program_name ex_backend ex_batch BIND_TO_HANDLE \<and>
   (case init ex_backend ex_model ex_batch 7 ex_device False of
      Inl e \<Rightarrow> False
    | Inr (m1, compilers) \<Rightarrow>
        init ex_backend m1 ex_batch 7 \<lparr>CL_DEVICE_EXTENSIONS = ''''\<rparr> True = Inr (m1, compilers) \<and>
        (case init ex_backend m1 (ex_batch\<lparr>se_order := INDEPENDENT\<rparr>) 7 ex_device False of
           Inl e \<Rightarrow> False
         | Inr (m3, compilers3) \<Rightarrow>
             lazy_programs_at (lazy_programs m1) 7 ''sv'' \<noteq> [] \<and>
             lazy_programs_at (lazy_programs m3) 7 ''sv'' = lazy_programs_at (lazy_programs m1) 7 ''sv'')) \<and>
   (case execute ex_backend ex_model ex_batch False False of
      Inl e \<Rightarrow> False
    | Inr m' \<Rightarrow>
        (case execute ex_backend m' ex_batch True True of
           Inl e \<Rightarrow> False
         | Inr m'' \<Rightarrow> lazy_programs m'' = lazy_programs m'))"
proof -
  have f: "fill_program_name ex_backend ex_batch BIND_TO_HANDLE = fill_program_name ex_backend ex_batch BIND_TO_HANDLE"
    by simp
  have "\<exists>m1 cs. init ex_backend ex_model ex_batch 7 ex_device False = Inr (m1, cs) \<and>
          lazy_programs_at (lazy_programs m1) 7 ''sv'' \<noteq> [] \<and>
          (\<exists>m3 cs3. init ex_backend m1 (ex_batch\<lparr>se_order := INDEPENDENT\<rparr>) 7 ex_device False = Inr (m3, cs3))"
    by (simp add: ex_defs run_defs)
  then obtain m1 cs m3 cs3 where i: "init ex_backend ex_model ex_batch 7 ex_device False = Inr (m1, cs)"
    and b: "lazy_programs_at (lazy_programs m1) 7 ''sv'' \<noteq> []"
    and i3: "init ex_backend m1 (ex_batch\<lparr>se_order := INDEPENDENT\<rparr>) 7 ex_device False = Inr (m3, cs3)"
    by blast
  have "\<exists>m'. execute ex_backend ex_model ex_batch False False = Inr m' \<and>
          (\<exists>m''. execute ex_backend m' ex_batch True True = Inr m'')"
    by (simp add: ex_defs run_defs min_element_def min_element_loop.simps)
  then obtain m' m'' where e1: "execute ex_backend ex_model ex_batch False False = Inr m'"
    and e2: "execute ex_backend m' ex_batch True True = Inr m''"
    by blast
  from init_idempotent[OF f, where m = ex_model and ctx = 7 and ?dev1.0 = ex_device
      and ?force1.0 = False and ?m1.0 = m1 and compilers = cs
      and ?dev2.0 = "\<lparr>CL_DEVICE_EXTENSIONS = ''''\<rparr>" and ?force2.0 = True
      and ?bypass1.0 = False and m' = m' and ?bypass2.0 = True and m'' = m''] i e1 e2
  have "init ex_backend m1 ex_batch 7 \<lparr>CL_DEVICE_EXTENSIONS = ''''\<rparr> True = Inr (m1, cs)"
    and "lazy_programs m'' = lazy_programs m'"
    by simp_all
  moreover from init_idempotent[OF f, where m = m1 and ?se3.0 = "ex_batch\<lparr>se_order := INDEPENDENT\<rparr>"
      and ?ctx3.0 = 7 and ?dev3.0 = ex_device and ?force3.0 = False and ?m3.0 = m3
      and ?compilers3.0 = cs3 and c = 7 and n = "''sv''"] i3 b
  have "lazy_programs_at (lazy_programs m3) 7 ''sv'' = lazy_programs_at (lazy_programs m1) 7 ''sv''"
    by simp
  ultimately show ?thesis using i i3 b e1 e2 by simp
qed

text \<open>
  C8, as the code has it. A vector that \<open>init\<close> builds (the key held nothing) has exactly
  two lazy compilers, whatever the number of templates: the program named by the
  fingerprint and the fallback program named by the fingerprint followed by \<open>_fb\<close>.
\<close>

theorem init_builds_two_programs:
  assumes "init B m se ctx dev force_recompilation = Inr (m1, compilers)"
    and "lazy_programs_at (lazy_programs m) ctx
           (c_str_to_string (fill_program_name B se BIND_TO_HANDLE)) = []"
  shows "length compilers = 2 \<and>
         map lc_name compilers =
           [c_str_to_string (fill_program_name B se BIND_TO_HANDLE),
            c_str_to_string (fill_program_name B se BIND_TO_HANDLE) @ ''_fb'']"
proof -
  from generate_all_shells[OF init_miss(1)[OF assms]] show ?thesis by simp
qed

theorem init_builds_two_programs_witness:
  "lazy_programs_at (lazy_programs ex_model_three) 7
     (c_str_to_string (fill_program_name ex_backend ex_batch BIND_TO_HANDLE)) = [] \<and>
   (case init ex_backend ex_model_three ex_batch 7 ex_device False of
      Inl e \<Rightarrow> False
    | Inr (m1, compilers) \<Rightarrow> length compilers = 2 \<and> map lc_name compilers = [''sv'', ''sv_fb''])"
proof -
  have h: "lazy_programs_at (lazy_programs ex_model_three) 7
     (c_str_to_string (fill_program_name ex_backend ex_batch BIND_TO_HANDLE)) = []"
    by (simp add: ex_defs run_defs)
  have "\<exists>m1 cs. init ex_backend ex_model_three ex_batch 7 ex_device False = Inr (m1, cs)"
    by (simp add: ex_defs run_defs)
  then obtain m1 cs where i: "init ex_backend ex_model_three ex_batch 7 ex_device False = Inr (m1, cs)"
    by blast
  have "c_str_to_string (fill_program_name ex_backend ex_batch BIND_TO_HANDLE) = ''sv''"
    by (simp add: ex_defs run_defs)
  with init_builds_two_programs[OF i h] have "length cs = 2 \<and> map lc_name cs = [''sv'', ''sv_fb'']"
    by simp
  with h i show ?thesis by simp
qed

text \<open>
  C8 as stated fails: a model of three templates gets a vector of two lazy compilers,
  which is neither the number of templates nor one more.
\<close>

theorem init_three_templates_counterexample:
  "length (templates ex_model_three) = 3 \<and>
   (case init ex_backend ex_model_three ex_batch 7 ex_device False of
      Inl e \<Rightarrow> False
    | Inr (m1, compilers) \<Rightarrow> length compilers = 2)"
  by (simp add: ex_defs run_defs)

text \<open>
  C9, as the code has it. \<open>fill_program_name\<close> makes no test on the number of characters
  it stores: it stores the prefix, every character the traversals write and the
  terminating zero, two characters more than the traversals write. \<open>init\<close> runs past
  its buffer of 256 characters exactly when these are more than 256. The program name
  read back from the buffer is the prefix followed by the characters the traversals
  wrote before their first zero character: by all of them when they wrote no zero
  character.
\<close>

theorem init_overruns_program_name:
  "length (fill_program_name B se policy) =
     length (traverse_all B (new_binder B policy) (se_data se)) + 2 \<and>
   (init B m se ctx dev force_recompilation = Inl buffer_overrun) =
     (256 < length (traverse_all B (new_binder B BIND_TO_HANDLE) (se_data se)) + 2) \<and>
   c_str_to_string (fill_program_name B se policy) =
     (if se_order se = INDEPENDENT then CHR ''i'' else CHR ''s'')
     # takeWhile (\<lambda>c. c \<noteq> CHR 0x00) (traverse_all B (new_binder B policy) (se_data se)) \<and>
   (CHR 0x00 \<notin> set (traverse_all B (new_binder B policy) (se_data se)) \<longrightarrow>
    c_str_to_string (fill_program_name B se policy) =
      (if se_order se = INDEPENDENT then CHR ''i'' else CHR ''s'')
      # traverse_all B (new_binder B policy) (se_data se))"
proof (intro conjI impI)
  show n: "length (fill_program_name B se policy) =
     length (traverse_all B (new_binder B policy) (se_data se)) + 2"
    for policy
    by (simp add: fill_program_name_def)
  from n[of BIND_TO_HANDLE]
  show "(init B m se ctx dev force_recompilation = Inl buffer_overrun) =
     (256 < length (traverse_all B (new_binder B BIND_TO_HANDLE) (se_data se)) + 2)"
    by (auto simp: init_def Let_def program_name_size_def split: sum.splits dest: generate_all_error)
  have t: "takeWhile (\<lambda>c. c \<noteq> CHR 0x00) (written @ [CHR 0x00]) =
             takeWhile (\<lambda>c. c \<noteq> CHR 0x00) written"
    for written
    by (induction written) simp_all
  then show name: "c_str_to_string (fill_program_name B se policy) =
     (if se_order se = INDEPENDENT then CHR ''i'' else CHR ''s'')
     # takeWhile (\<lambda>c. c \<noteq> CHR 0x00) (traverse_all B (new_binder B policy) (se_data se))"
    by (simp add: c_str_to_string_def fill_program_name_def)
  assume "CHR 0x00 \<notin> set (traverse_all B (new_binder B policy) (se_data se))"
  then have "takeWhile (\<lambda>c. c \<noteq> CHR 0x00) (traverse_all B (new_binder B policy) (se_data se))
      = traverse_all B (new_binder B policy) (se_data se)"
    by (intro takeWhile_eq_all_conv[THEN iffD2]) auto
  with name show "c_str_to_string (fill_program_name B se policy) =
      (if se_order se = INDEPENDENT then CHR ''i'' else CHR ''s'')
      # traverse_all B (new_binder B policy) (se_data se)"
    by simp
qed

text \<open>A batch of one expression: its traversal writes \<open>v\<close>, the name is \<open>sv\<close>.\<close>

theorem init_overruns_program_name_witness:
  "CHR 0x00 \<notin> set (traverse_all ex_backend (new_binder ex_backend BIND_TO_HANDLE) (se_data ex_batch)) \<and>
   length (fill_program_name ex_backend ex_batch BIND_TO_HANDLE) = 3 \<and>
   c_str_to_string (fill_program_name ex_backend ex_batch BIND_TO_HANDLE) = ''sv'' \<and>
   init ex_backend ex_model ex_batch 7 ex_device False \<noteq> Inl buffer_overrun"
proof -
  have z: "CHR 0x00 \<notin> set (traverse_all ex_backend (new_binder ex_backend BIND_TO_HANDLE) (se_data ex_batch))"
    by (simp add: ex_defs)
  note t = init_overruns_program_name[of ex_backend ex_batch BIND_TO_HANDLE ex_model 7 ex_device False]
  from t[THEN conjunct1]
  have "length (fill_program_name ex_backend ex_batch BIND_TO_HANDLE) = 3"
    by (simp add: ex_defs)
  moreover from t[THEN conjunct2, THEN conjunct2, THEN conjunct2, rule_format, OF z]
  have "c_str_to_string (fill_program_name ex_backend ex_batch BIND_TO_HANDLE) = ''sv''"
    by (simp add: ex_defs)
  moreover from t[THEN conjunct2, THEN conjunct1]
  have "init ex_backend ex_model ex_batch 7 ex_device False \<noteq> Inl buffer_overrun"
    by (simp add: ex_defs)
  ultimately show ?thesis using z by simp
qed

text \<open>
  C9 as stated fails: a batch whose traversal writes 255 characters makes
  \<open>fill_program_name\<close> store 257 characters, and \<open>init\<close> runs past the 256 characters of
  its buffer instead of stopping with a failed assertion or an exception.
\<close>

theorem init_long_name_counterexample:
  "length (fill_program_name ex_long_backend ex_batch BIND_TO_HANDLE) = 257 \<and>
   program_name_size = 256 \<and>
   init ex_long_backend ex_model ex_batch 7 ex_device False = Inl buffer_overrun"
  by (simp add: ex_long_backend_def ex_defs run_defs)

subsection \<open>\<open>tune\<close>\<close>



subsection \<open>The importer\<close>

text \<open>
  C2. The importer looks for eight operation names; \<open>gemmNT\<close> is not among them, although
  \<open>get_expression_type\<close> and \<open>create\<close> know it. A description of one \<open>gemmNT\<close> profile for
  \<open>float32\<close> is imported without any effect on the target map, while the same
  description under the name \<open>gemmNN\<close> puts a model of one template into the map.
\<close>

theorem import_skips_gemmNT:
  "import ex_random_forest (ex_gemm_document ''gemmNT'') ex_queue Map.empty = Inr Map.empty \<and>
   ''gemmNT'' \<notin> set operations \<and>
   get_expression_type ''gemmNT'' = Inr MATRIX_PRODUCT_NT_TYPE \<and>
   create ''gemmNT'' ex_gemm_profile =
     Inr (mproduct_nt 1 8 8 8 4 1 4 FETCH_FROM_LOCAL FETCH_FROM_LOCAL 8 8) \<and>
   import ex_random_forest (ex_gemm_document ''gemmNN'') ex_queue Map.empty =
     Inr [(MATRIX_PRODUCT_NN_TYPE, FLOAT_TYPE) \<mapsto>
            model_of_templates
              [mproduct_nn 1 8 8 8 4 1 4 FETCH_FROM_LOCAL FETCH_FROM_LOCAL 8 8] ex_queue]"
proof (intro conjI)
  show "import ex_random_forest (ex_gemm_document ''gemmNT'') ex_queue Map.empty = Inr Map.empty"
    by (simp add: import_def operations_def ex_gemm_document_def)
  show "''gemmNT'' \<notin> set operations"
    by (simp add: operations_def)
  show "get_expression_type ''gemmNT'' = Inr MATRIX_PRODUCT_NT_TYPE"
    by (simp add: get_expression_type_def)
  show "create ''gemmNT'' ex_gemm_profile =
     Inr (mproduct_nt 1 8 8 8 4 1 4 FETCH_FROM_LOCAL FETCH_FROM_LOCAL 8 8)"
    by (simp add: create_known create11_def fetch_def ex_gemm_profile_def)
  have "create_all ''gemmNN'' [JArray (map JInt ex_gemm_profile)] =
          Inr [mproduct_nn 1 8 8 8 4 1 4 FETCH_FROM_LOCAL FETCH_FROM_LOCAL 8 8]"
    by (simp add: create_known create11_def fetch_def ex_gemm_profile_def to_int_array_def)
  then show "import ex_random_forest (ex_gemm_document ''gemmNN'') ex_queue Map.empty =
     Inr [(MATRIX_PRODUCT_NN_TYPE, FLOAT_TYPE) \<mapsto>
            model_of_templates
              [mproduct_nn 1 8 8 8 4 1 4 FETCH_FROM_LOCAL FETCH_FROM_LOCAL 8 8] ex_queue]"
    by (simp add: import_def operations_def dtype_def ex_gemm_document_def import_leaf_def
        get_expression_type_def get_dtype_def)
qed

text \<open>
  C3, as the code has it. \<open>get_expression_type\<close> and \<open>get_dtype\<close> fail with an
  invalid-argument exception on every name they do not recognise, but the importer
  calls them only with the names of its own lists, which it looks up in the
  description: a key of the description outside these lists is never read. The
  importer returns what it returns on the description without such keys (at the level
  of operations and at the level of data types), and an invalid-argument exception
  can only come out of it from the constructor of the random forest.
\<close>

theorem import_ignores_unknown_names:
  "import random_forest (JObject (filter (\<lambda>kv. fst kv \<in> set operations) members)) q result =
     import random_forest (JObject members) q result \<and>
   import_dtypes random_forest q op etype (JObject (filter (\<lambda>kv. fst kv \<in> set dtype) leaves)) dtype result =
     import_dtypes random_forest q op etype (JObject leaves) dtype result \<and>
   (import random_forest document q result = Inl (invalid_argument s) \<longrightarrow>
      (\<exists>pd. random_forest pd = Inl (invalid_argument s))) \<and>
   (name \<notin> set operations \<longrightarrow> name \<noteq> ''gemmNT'' \<longrightarrow>
      get_expression_type name = Inl (invalid_argument (''Invalid expression: '' @ name))) \<and>
   (name \<notin> set dtype \<longrightarrow>
      get_dtype name = Inl (invalid_argument (''Invalid datatype: '' @ name)))"
proof (intro conjI impI)
  show "import random_forest (JObject (filter (\<lambda>kv. fst kv \<in> set operations) members)) q result =
     import random_forest (JObject members) q result"
    unfolding import_def by (rule import_operations_filter_keys) simp
  show "import_dtypes random_forest q op etype (JObject (filter (\<lambda>kv. fst kv \<in> set dtype) leaves)) dtype result =
     import_dtypes random_forest q op etype (JObject leaves) dtype result"
    by (rule import_dtypes_filter_keys) simp
next
  assume "import random_forest document q result = Inl (invalid_argument s)"
  then show "\<exists>pd. random_forest pd = Inl (invalid_argument s)"
    unfolding import_def by (rule import_operations_invalid_argument[OF subset_refl])
next
  assume "name \<notin> set operations" and "name \<noteq> ''gemmNT''"
  then show "get_expression_type name = Inl (invalid_argument (''Invalid expression: '' @ name))"
    by (simp add: operations_def get_expression_type_def)
next
  assume "name \<notin> set dtype"
  then show "get_dtype name = Inl (invalid_argument (''Invalid datatype: '' @ name))"
    by (simp add: dtype_def get_dtype_def)
qed

text \<open>
  A description of two profiles whose predictor is rejected; the names \<open>axpy\<close> and
  \<open>float16\<close>.
\<close>

theorem import_ignores_unknown_names_witness:
  "import ex_failing_forest ex_two_profiles_document ex_queue Map.empty =
     Inl (invalid_argument ''predictor'') \<and>
   ''axpy'' \<notin> set operations \<and> ''axpy'' \<noteq> ''gemmNT'' \<and>
   get_expression_type ''axpy'' = Inl (invalid_argument ''Invalid expression: axpy'') \<and>
   ''float16'' \<notin> set dtype \<and>
   get_dtype ''float16'' = Inl (invalid_argument ''Invalid datatype: float16'')"
proof -
  have "create_all ''vaxpy'' [JArray (map JInt [1, 64, 128, 1]), JArray (map JInt [4, 64, 128, 2])] =
          Inr [vaxpy 1 64 128 FETCH_FROM_GLOBAL_STRIDED, vaxpy 4 64 128 FETCH_FROM_GLOBAL_CONTIGUOUS]"
    by (simp add: create_known create4_def fetch_def to_int_array_def)
  then have i: "import ex_failing_forest ex_two_profiles_document ex_queue Map.empty =
     Inl (invalid_argument ''predictor'')"
    by (simp add: import_def operations_def dtype_def ex_two_profiles_document_def import_leaf_def
        get_expression_type_def get_dtype_def ex_failing_forest_def)
  have a: "''axpy'' \<notin> set operations" and n: "''axpy'' \<noteq> ''gemmNT''"
    and f: "''float16'' \<notin> set dtype"
    by (simp_all add: operations_def dtype_def)
  note t = import_ignores_unknown_names[where random_forest = ex_failing_forest
      and document = ex_two_profiles_document and q = ex_queue and result = Map.empty
      and s = "''predictor''"]
  from t[where name = "''axpy''"] i a n
  have "get_expression_type ''axpy'' = Inl (invalid_argument (''Invalid expression: '' @ ''axpy''))"
    by blast
  moreover from t[where name = "''float16''"] f
  have "get_dtype ''float16'' = Inl (invalid_argument (''Invalid datatype: '' @ ''float16''))"
    by blast
  ultimately show ?thesis using i a n f by simp
qed

text \<open>
  C3 as stated fails: a description with the unknown operation name \<open>axpy\<close> and, under
  \<open>vaxpy\<close>, the unknown data type name \<open>float16\<close> is imported without an error, and the
  target map stays as it was.
\<close>

theorem import_unknown_names_counterexample:
  "import ex_random_forest ex_unknown_document ex_queue Map.empty = Inr Map.empty"
  by (simp add: import_def operations_def dtype_def ex_unknown_document_def get_expression_type_def)

end
